theory Spec2Isabelle
  imports Main "HOL-Library.AList"
begin

section \<open>Python values\<close>

text \<open>
  A Python \<open>dict\<close> with string keys is an association list in insertion order.
  \<open>d[k]\<close> raises \<open>KeyError\<close> on a missing key; \<open>d[k] = v\<close> overwrites the entry of
  \<open>k\<close> in place or appends a new one; a dict is truthy when it is not empty.
\<close>

datatype py_error = KeyError string

type_synonym 'v dict = "(string \<times> 'v) list"

definition dict_get :: "'v dict \<Rightarrow> string \<Rightarrow> py_error + 'v" where
  "dict_get d k = (case map_of d k of None \<Rightarrow> Inl (KeyError k) | Some v \<Rightarrow> Inr v)"

definition dict_set :: "'v dict \<Rightarrow> string \<Rightarrow> 'v \<Rightarrow> 'v dict" where
  "dict_set d k v = AList.update k v d"

definition keys :: "'v dict \<Rightarrow> string list" where
  "keys d = map fst d"

definition truthy :: "'v dict \<Rightarrow> bool" where
  "truthy d = (d \<noteq> [])"

text \<open>\<open>str(i)\<close> for an integer: decimal digits, with a leading minus sign below zero.\<close>

definition digit_char :: "nat \<Rightarrow> char" where
  "digit_char d = ''0123456789'' ! d"

fun digits10 :: "nat \<Rightarrow> string" where
  "digits10 n =
     (if n < 10 then [digit_char n] else digits10 (n div 10) @ [digit_char (n mod 10)])"

declare digits10.simps [simp del]

definition str_int :: "int \<Rightarrow> string" where
  "str_int i = (if i < 0 then CHR ''-'' # digits10 (nat (- i)) else digits10 (nat i))"

text \<open>
  \<open>random.randint(a, b)\<close> returns some integer \<open>N\<close> with \<open>a \<le> N \<le> b\<close>; the model
  keeps the set of possible results.
\<close>

definition randint :: "int \<Rightarrow> int \<Rightarrow> int set" where
  "randint a b = {a..b}"

section \<open>Baseline, sample generator and anomaly detector\<close>

definition baseline :: "(int \<times> int) dict" where
  "baseline =
     [(''cpu_usage'', (10, 15)),
      (''network_activity'', (20, 40)),
      (''file_access_rate'', (0, 3))]"

text \<open>
  \<open>simulate_behavior(cycle, total)\<close>: the fixed sample on the last cycle, three
  independent draws otherwise. The result is the set of samples the call can return;
  \<open>total'\<close> is the parameter \<open>total\<close>.
\<close>

definition simulate_behavior :: "int \<Rightarrow> int \<Rightarrow> int dict set" where
  "simulate_behavior cycle total' =
     (if cycle = total' - 1
      then {[(''cpu_usage'', 12), (''network_activity'', 30), (''file_access_rate'', 1)]}
      else (\<lambda>(c, n, f).
              [(''cpu_usage'', c), (''network_activity'', n), (''file_access_rate'', f)])
           ` (randint 5 45 \<times> randint 10 50 \<times> randint 0 7))"

text \<open>
  An entry of the anomaly report: the dict \<open>{"value": v, "expected_range": "low-high"}\<close>.
\<close>

record anomaly =
  anomaly_value :: int
  expected_range :: string

text \<open>
  The loop of \<open>detect_anomalies\<close> over \<open>baseline.items()\<close>, with the report built so
  far as accumulator; \<open>vals\<close> is the parameter \<open>values\<close>. The lookup \<open>values[k]\<close> is
  the only operation that can raise.
\<close>

fun detect_loop ::
  "(int \<times> int) dict \<Rightarrow> int dict \<Rightarrow> anomaly dict \<Rightarrow> py_error + anomaly dict" where
  "detect_loop [] vals anomalies = Inr anomalies"
| "detect_loop ((k, (low, high)) # items) vals anomalies =
     (case dict_get vals k of
        Inl e \<Rightarrow> Inl e
      | Inr v \<Rightarrow>
          if \<not> (low \<le> v \<and> v \<le> high)
          then detect_loop items vals
                 (dict_set anomalies k
                    \<lparr>anomaly_value = v,
                     expected_range = str_int low @ ''-'' @ str_int high\<rparr>)
          else detect_loop items vals anomalies)"

definition detect_anomalies :: "int dict \<Rightarrow> py_error + anomaly dict" where
  "detect_anomalies vals = detect_loop baseline vals []"

section \<open>Text of the page\<close>

text \<open>
  Strings are the UTF-8 bytes of the source text. The pictographs of the messages are
  named here; \<open>vs16\<close> is the variation selector that follows three of them.
\<close>

definition shield :: string where
  "shield = [CHR 0xF0, CHR 0x9F, CHR 0x9B, CHR 0xA1]"

definition vs16 :: string where
  "vs16 = [CHR 0xEF, CHR 0xB8, CHR 0x8F]"

definition red_circle :: string where
  "red_circle = [CHR 0xF0, CHR 0x9F, CHR 0x94, CHR 0xB4]"

definition check_mark :: string where
  "check_mark = [CHR 0xE2, CHR 0x9C, CHR 0x85]"

definition warning_sign :: string where
  "warning_sign = [CHR 0xE2, CHR 0x9A, CHR 0xA0]"

definition siren :: string where
  "siren = [CHR 0xF0, CHR 0x9F, CHR 0x9A, CHR 0xA8]"

definition magnifier :: string where
  "magnifier = [CHR 0xF0, CHR 0x9F, CHR 0x94, CHR 0x8D]"

definition wrench :: string where
  "wrench = [CHR 0xF0, CHR 0x9F, CHR 0x94, CHR 0xA7]"

definition rocket :: string where
  "rocket = [CHR 0xF0, CHR 0x9F, CHR 0x9A, CHR 0x80]"

definition arrows :: string where
  "arrows = [CHR 0xF0, CHR 0x9F, CHR 0x94, CHR 0x84]"

definition bar_chart :: string where
  "bar_chart = [CHR 0xF0, CHR 0x9F, CHR 0x93, CHR 0x8A]"

definition clipboard :: string where
  "clipboard = [CHR 0xF0, CHR 0x9F, CHR 0x93, CHR 0x8B]"

definition party :: string where
  "party = [CHR 0xF0, CHR 0x9F, CHR 0x8E, CHR 0x89]"

definition chart_up :: string where
  "chart_up = [CHR 0xF0, CHR 0x9F, CHR 0x93, CHR 0x88]"

definition book :: string where
  "book = [CHR 0xF0, CHR 0x9F, CHR 0x93, CHR 0x96]"

definition scales :: string where
  "scales = [CHR 0xE2, CHR 0x9A, CHR 0x96]"

text \<open>
  \<open>s.replace(a, b)\<close> for one-character \<open>a\<close> and \<open>b\<close>, \<open>s.title()\<close> and
  \<open>sub in s\<close>. Letters are the ASCII letters, which is all the metric names contain.
\<close>

definition replace_char :: "char \<Rightarrow> char \<Rightarrow> string \<Rightarrow> string" where
  "replace_char a b s = map (\<lambda>c. if c = a then b else c) s"

definition is_lower :: "char \<Rightarrow> bool" where
  "is_lower c = (97 \<le> (of_char c :: nat) \<and> (of_char c :: nat) \<le> 122)"

definition is_upper :: "char \<Rightarrow> bool" where
  "is_upper c = (65 \<le> (of_char c :: nat) \<and> (of_char c :: nat) \<le> 90)"

definition to_upper :: "char \<Rightarrow> char" where
  "to_upper c = (if is_lower c then char_of ((of_char c :: nat) - 32) else c)"

definition to_lower :: "char \<Rightarrow> char" where
  "to_lower c = (if is_upper c then char_of ((of_char c :: nat) + 32) else c)"

fun title_from :: "bool \<Rightarrow> string \<Rightarrow> string" where
  "title_from previous_cased [] = []"
| "title_from previous_cased (c # cs) =
     (if is_lower c
      then (if previous_cased then c else to_upper c) # title_from True cs
      else if is_upper c
      then (if previous_cased then to_lower c else c) # title_from True cs
      else c # title_from False cs)"

definition title :: "string \<Rightarrow> string" where
  "title s = title_from False s"

fun contains :: "string \<Rightarrow> string \<Rightarrow> bool" where
  "contains sub [] = (sub = [])"
| "contains sub (c # cs) = (take (length sub) (c # cs) = sub \<or> contains sub cs)"

section \<open>What a script run writes\<close>

text \<open>
  Values handed to the page as data (\<open>st.json\<close>, \<open>st.table\<close>, \<open>st.metric\<close>): integers,
  strings and dicts of them.
\<close>

datatype py_value = PyInt int | PyStr string | PyDict "(string \<times> py_value) list"

text \<open>
  One element per call that writes to the page or waits, in the order of the calls.
  \<open>StButton\<close> carries the label and the \<open>disabled\<close> flag; \<open>StEmpty\<close> is the
  placeholder made by \<open>st.empty()\<close> and \<open>PhWarning\<close>, \<open>PhSuccess\<close> overwrite its
  content; \<open>Sleep n\<close> is \<open>time.sleep(n)\<close>. The column containers are layout only and
  leave no element.
\<close>

datatype ui =
    StTitle string
  | StMarkdown string
  | StButton string bool
  | StError string
  | StWarning string
  | StSuccess string
  | StInfo string
  | StTable "py_value dict list"
  | StExpander string
  | StJson py_value
  | StMetric string py_value
  | StEmpty
  | PhWarning string
  | PhSuccess string
  | Sleep int

text \<open>
  \<open>display_metrics\<close> writes one line per metric, in three columns: an error line when
  the metric is a key of the report, a success line otherwise. The three blocks differ
  in the key, the label and the unit only; \<open>values[k]\<close> is read in either case.
\<close>

definition metric_status ::
  "int dict \<Rightarrow> anomaly dict \<Rightarrow> string \<Rightarrow> string \<Rightarrow> string \<Rightarrow> py_error + ui" where
  "metric_status vals anomalies k label unit' =
     (case dict_get vals k of
        Inl e \<Rightarrow> Inl e
      | Inr v \<Rightarrow>
          Inr (if k \<in> set (keys anomalies)
               then StError (red_circle @ label @ str_int v @ unit')
               else StSuccess (check_mark @ label @ str_int v @ unit')))"

definition display_metrics :: "int dict \<Rightarrow> anomaly dict \<Rightarrow> py_error + ui list" where
  "display_metrics vals anomalies =
     (case metric_status vals anomalies ''cpu_usage'' '' CPU Usage: '' ''%'' of
        Inl e \<Rightarrow> Inl e
      | Inr m1 \<Rightarrow>
     (case metric_status vals anomalies ''network_activity'' '' Network Activity: '' '' Mbps'' of
        Inl e \<Rightarrow> Inl e
      | Inr m2 \<Rightarrow>
     (case metric_status vals anomalies ''file_access_rate'' '' File Access Rate: '' ''/sec'' of
        Inl e \<Rightarrow> Inl e
      | Inr m3 \<Rightarrow> Inr [m1, m2, m3])))"

text \<open>
  \<open>display_anomalies\<close>: a warning and a table with one row per entry of the report, or
  the all-clear line when the report is empty.
\<close>

definition display_anomalies :: "anomaly dict \<Rightarrow> ui list" where
  "display_anomalies anomalies =
     (if truthy anomalies
      then [StWarning (warning_sign @ vs16 @ '' **Anomalies Detected:**''),
            StTable (map (\<lambda>(key, details).
                       [(''Metric'', PyStr (title (replace_char CHR ''_'' CHR '' '' key))),
                        (''Current Value'', PyInt (anomaly_value details)),
                        (''Expected Range'', PyStr (expected_range details))])
                     anomalies)]
      else [StInfo (check_mark @ '' **All systems normal. No threats detected.**'')])"

text \<open>
  \<open>show_threat_response\<close>: the banner, the placeholder, and the four steps written
  into the placeholder one second apart.
\<close>

definition response_steps :: "string list" where
  "response_steps =
     [magnifier @ '' Analyzing threat patterns...'',
      shield @ vs16 @ '' Isolating affected systems...'',
      wrench @ '' Rolling back malicious changes...'',
      check_mark @ '' System healed and secured!'']"

text \<open>
  The loop over \<open>enumerate(response_steps)\<close>; \<open>n\<close> is \<open>len(response_steps)\<close>.
\<close>

fun response_loop :: "int \<Rightarrow> string list \<Rightarrow> int \<Rightarrow> ui list" where
  "response_loop i [] n = []"
| "response_loop i (step # steps) n =
     (if i < n - 1 then PhWarning step else PhSuccess step)
       # Sleep 1 # response_loop (i + 1) steps n"

definition show_threat_response :: "ui list" where
  "show_threat_response =
     StError (siren @ '' **Threat Detected! Initiating Response...**'')
       # StEmpty # response_loop 0 response_steps (int (length response_steps))"

section \<open>The script\<close>

text \<open>
  \<open>st.session_state\<close> holds three entries once the first run has initialised it; a
  session that has not run yet is \<open>None\<close>.
\<close>

record session_state =
  simulation_running :: bool
  cycle :: int
  total_cycles :: int

text \<open>
  What a run receives from outside: whether the user pressed one of the two buttons to
  trigger it, and the clock reading formatted by \<open>strftime\<close>.
\<close>

record run_input =
  start_pressed :: bool
  reset_pressed :: bool
  now :: string

text \<open>
  \<open>st.button(label, disabled=d)\<close> returns whether the button was pressed; a button
  shown disabled cannot be pressed.
\<close>

definition st_button :: "bool \<Rightarrow> bool \<Rightarrow> bool" where
  "st_button pressed disabled = (pressed \<and> \<not> disabled)"

text \<open>
  A run ends by reaching the end of the script or by \<open>st.rerun()\<close>, which stops it at
  once and schedules the next run.
\<close>

datatype ending = Finished | Rerun

record run_result =
  rendered :: "ui list"
  session :: session_state
  ended :: ending

text \<open>
  The branch of \<open>run_simulation\<close> for \<open>cycle < total_cycles\<close>, for the sample \<open>vals\<close>
  that \<open>simulate_behavior\<close> returned; \<open>page\<close> is what the run has written so far.
\<close>

definition monitoring_cycle ::
  "string \<Rightarrow> session_state \<Rightarrow> ui list \<Rightarrow> int dict \<Rightarrow> py_error + run_result" where
  "monitoring_cycle timestamp s page vals =
     (case detect_anomalies vals of
        Inl e \<Rightarrow> Inl e
      | Inr anomalies \<Rightarrow>
     (case display_metrics vals anomalies of
        Inl e \<Rightarrow> Inl e
      | Inr status \<Rightarrow>
          Inr \<lparr>rendered =
                 page
                 @ [StMarkdown (''### '' @ bar_chart @ '' Monitoring Cycle ''
                      @ str_int (cycle s + 1) @ '' of '' @ str_int (total_cycles s))]
                 @ status
                 @ [StMarkdown ''---'']
                 @ display_anomalies anomalies
                 @ [StExpander (clipboard @ '' Detailed System Data''),
                    StJson (PyDict
                      [(''timestamp'', PyStr timestamp),
                       (''cycle'', PyInt (cycle s + 1)),
                       (''metrics'', PyDict (map (\<lambda>(k, v). (k, PyInt v)) vals)),
                       (''anomalies'',
                          if truthy anomalies
                          then PyDict (map (\<lambda>(k, a).
                                 (k, PyDict [(''value'', PyInt (anomaly_value a)),
                                             (''expected_range'', PyStr (expected_range a))]))
                               anomalies)
                          else PyStr ''None detected'')])]
                 @ (if truthy anomalies then show_threat_response @ [Sleep 2] else [Sleep 2])
                 @ [Sleep 1],
               session = s\<lparr>cycle := cycle s + 1\<rparr>,
               ended = Rerun\<rparr>))"

definition summary_data :: "session_state \<Rightarrow> py_value dict" where
  "summary_data s =
     [(''Total Cycles'', PyInt (total_cycles s)),
      (''Threats Detected'', PyInt (total_cycles s - 1)),
      (''Response Time'', PyStr ''< 3 seconds per threat''),
      (''System Status'', PyStr (''Secure '' @ check_mark))]"

text \<open>The branch for \<open>cycle \<ge> total_cycles\<close> while the simulation is running.\<close>

definition simulation_complete :: "session_state \<Rightarrow> ui list \<Rightarrow> run_result" where
  "simulation_complete s page =
     (let s' = s\<lparr>simulation_running := False\<rparr>
      in \<lparr>rendered =
             page
             @ [StSuccess (party @ '' **Simulation Complete!**''),
                StInfo (''The CyberDNA system successfully detected and responded ''
                        @ ''to all threats. System is now secure.''),
                StMarkdown (''### '' @ chart_up @ '' Simulation Summary'')]
             @ map (\<lambda>(key, v). StMetric key v) (take 2 (summary_data s'))
             @ map (\<lambda>(key, v). StMetric key v) (drop 2 (summary_data s')),
           session = s',
           ended = Finished\<rparr>)"

definition about_text :: string where
  "about_text =
     [CHR 0x0A] @ ''        This CyberDNA simulation demonstrates:'' @ [CHR 0x0A]
     @ ''        '' @ [CHR 0x0A]
     @ ''        '' @ magnifier
     @ '' **Real-time System Monitoring**: Tracks CPU usage, network activity, and file access rates''
     @ [CHR 0x0A] @ ''        '' @ [CHR 0x0A]
     @ ''        '' @ siren
     @ '' **Anomaly Detection**: Identifies when system metrics exceed normal baseline ranges''
     @ [CHR 0x0A] @ ''        '' @ [CHR 0x0A]
     @ ''        '' @ shield @ vs16
     @ '' **Automated Response**: Shows how cybersecurity systems can automatically contain and neutralize threats''
     @ [CHR 0x0A] @ ''        '' @ [CHR 0x0A]
     @ ''        '' @ bar_chart
     @ '' **Visual Feedback**: Provides clear visual indicators of system health and threat status''
     @ [CHR 0x0A] @ ''        '' @ [CHR 0x0A]
     @ ''        Click **'' @ [CHR 0x22] @ ''Start Simulation'' @ [CHR 0x22]
     @ ''** to begin the demonstration.'' @ [CHR 0x0A] @ ''        ''"

text \<open>The branch for a simulation that is not running.\<close>

definition about_page :: "ui list" where
  "about_page =
     [StMarkdown (''### '' @ book @ '' About This Simulation''),
      StInfo about_text,
      StMarkdown (''### '' @ scales @ vs16 @ '' System Baseline (Normal Ranges)''),
      StTable (map (\<lambda>(metric, (low, high)).
                 [(''Metric'', PyStr (title (replace_char CHR ''_'' CHR '' '' metric))),
                  (''Normal Range'', PyStr (str_int low @ '' - '' @ str_int high)),
                  (''Unit'', PyStr (if contains ''cpu'' metric then ''%''
                                    else if contains ''network'' metric then ''Mbps''
                                    else ''/sec''))])
               baseline)]"

text \<open>
  The start of \<open>run_simulation\<close>: the session state is initialised on the first run, the
  heading and the two buttons are written, and a press of the start button takes effect.
\<close>

definition initialise :: "session_state option \<Rightarrow> session_state" where
  "initialise stored =
     (case stored of
        None \<Rightarrow> \<lparr>simulation_running = False, cycle = 0, total_cycles = 3\<rparr>
      | Some s \<Rightarrow> s)"

definition page_top :: "session_state \<Rightarrow> ui list" where
  "page_top s0 =
     [StTitle (shield @ vs16 @ '' CyberDNA Cybersecurity Simulation''),
      StMarkdown ''**Real-time threat detection and response demonstration**'',
      StButton (rocket @ '' Start Simulation'') (simulation_running s0),
      StButton (arrows @ '' Reset'') False]"

definition press_start :: "run_input \<Rightarrow> session_state \<Rightarrow> session_state" where
  "press_start inp s0 =
     (if st_button (start_pressed inp) (simulation_running s0)
      then s0\<lparr>simulation_running := True, cycle := 0\<rparr>
      else s0)"

text \<open>
  One run of the script. The result is the set of outcomes the run can have: one for each
  sample \<open>simulate_behavior\<close> can return in a monitoring cycle, a single one elsewhere.
\<close>

definition run_simulation ::
  "run_input \<Rightarrow> session_state option \<Rightarrow> (py_error + run_result) set" where
  "run_simulation inp stored =
     (let s0 = initialise stored;
          s1 = press_start inp s0
      in if st_button (reset_pressed inp) False
         then {Inr \<lparr>rendered = page_top s0,
                     session = s1\<lparr>simulation_running := False, cycle := 0\<rparr>,
                     ended = Rerun\<rparr>}
         else
           let timestamp = now inp;
               page = page_top s0 @ [StMarkdown (''**Current Time:** '' @ timestamp)]
           in if simulation_running s1
              then if cycle s1 < total_cycles s1
                   then monitoring_cycle timestamp s1 page
                          ` simulate_behavior (cycle s1) (total_cycles s1)
                   else {Inr (simulation_complete s1 page)}
              else {Inr \<lparr>rendered = page @ about_page, session = s1, ended = Finished\<rparr>})"

section \<open>The cycle state machine\<close>

text \<open>
  The three branches of the script, read off the stored state: not running, running with
  cycles left, running with all cycles done.
\<close>

datatype phase = Idle | Running | Complete

definition phase_of :: "session_state \<Rightarrow> phase" where
  "phase_of s =
     (if simulation_running s
      then (if cycle s < total_cycles s then Running else Complete)
      else Idle)"

text \<open>
  The sessions the script can go through: \<open>history h stored\<close> holds when the runs
  with results \<open>h\<close>, oldest first, lead from an empty session to the stored state
  \<open>stored\<close>. Every run may receive any input and draw any sample.
\<close>

inductive history :: "run_result list \<Rightarrow> session_state option \<Rightarrow> bool" where
  fresh: "history [] None"
| run: "history h stored \<Longrightarrow> Inr r \<in> run_simulation inp stored
        \<Longrightarrow> history (h @ [r]) (Some (session r))"

text \<open>Observations on what a run wrote.\<close>

fun is_json :: "ui \<Rightarrow> bool" where
  "is_json (StJson j) = True"
| "is_json e = False"

fun is_response_step :: "ui \<Rightarrow> bool" where
  "is_response_step (PhWarning m) = True"
| "is_response_step (PhSuccess m) = True"
| "is_response_step e = False"

definition responded :: "run_result \<Rightarrow> bool" where
  "responded r = (\<exists>e \<in> set (rendered r). is_response_step e)"

text \<open>
  The state and the page with which a run in which reset was not pressed reaches the test
  of \<open>simulation_running\<close>.
\<close>

definition entry_state :: "run_input \<Rightarrow> session_state option \<Rightarrow> session_state" where
  "entry_state inp stored = press_start inp (initialise stored)"

definition entry_page :: "run_input \<Rightarrow> session_state option \<Rightarrow> ui list" where
  "entry_page inp stored =
     page_top (initialise stored) @ [StMarkdown (''**Current Time:** '' @ now inp)]"

section \<open>Facts about the detector\<close>

lemma baseline_str:
  "str_int 10 = ''10''" "str_int 15 = ''15''" "str_int 20 = ''20''"
  "str_int 40 = ''40''" "str_int 0 = ''0''" "str_int 3 = ''3''"
  by (simp_all add: str_int_def digits10.simps digit_char_def)

text \<open>The report for a sample that has the three metrics, written out.\<close>

lemma detect_anomalies_present:
  assumes "map_of vals ''cpu_usage'' = Some c"
    and "map_of vals ''network_activity'' = Some n"
    and "map_of vals ''file_access_rate'' = Some f"
  shows "detect_anomalies vals = Inr
     ((if \<not> (10 \<le> c \<and> c \<le> 15)
       then [(''cpu_usage'', \<lparr>anomaly_value = c, expected_range = ''10-15''\<rparr>)] else []) @
      (if \<not> (20 \<le> n \<and> n \<le> 40)
       then [(''network_activity'', \<lparr>anomaly_value = n, expected_range = ''20-40''\<rparr>)]
       else []) @
      (if \<not> (0 \<le> f \<and> f \<le> 3)
       then [(''file_access_rate'', \<lparr>anomaly_value = f, expected_range = ''0-3''\<rparr>)]
       else []))"
  using assms
  by (simp add: detect_anomalies_def baseline_def dict_get_def dict_set_def baseline_str)

lemma keys_present:
  assumes "set (keys baseline) \<subseteq> set (keys vals)"
  obtains c n f where "map_of vals ''cpu_usage'' = Some c"
    and "map_of vals ''network_activity'' = Some n"
    and "map_of vals ''file_access_rate'' = Some f"
proof -
  have "''cpu_usage'' \<in> fst ` set vals" "''network_activity'' \<in> fst ` set vals"
    "''file_access_rate'' \<in> fst ` set vals"
    using assms by (auto simp: keys_def baseline_def)
  then obtain c n f where "map_of vals ''cpu_usage'' = Some c"
    "map_of vals ''network_activity'' = Some n" "map_of vals ''file_access_rate'' = Some f"
    by (meson weak_map_of_SomeI map_of_eq_None_iff not_Some_eq)
  then show ?thesis using that by blast
qed

lemma in_keys_iff: "k \<in> set (keys d) \<longleftrightarrow> map_of d k \<noteq> None"
  by (simp add: keys_def map_of_eq_None_iff)

text \<open>The loop raises at the first item whose key the sample lacks.\<close>

lemma detect_loop_missing:
  assumes "List.find (\<lambda>k. k \<notin> set (keys vals)) (keys items) = Some k"
  shows "detect_loop items vals acc = Inl (KeyError k)"
  using assms
proof (induction items vals acc rule: detect_loop.induct)
  case (1 vals anomalies)
  then show ?case by (simp add: keys_def)
next
  case (2 k' low high items vals anomalies)
  show ?case
  proof (cases "map_of vals k'")
    case None
    then have g: "dict_get vals k' = Inl (KeyError k')" by (simp add: dict_get_def)
    from None have "k' \<notin> set (keys vals)" by (simp add: in_keys_iff)
    with 2(3) have "k = k'" by (simp add: keys_def)
    with g show ?thesis by simp
  next
    case (Some v)
    then have "k' \<in> set (keys vals)" by (simp add: in_keys_iff)
    with 2(3) have f: "List.find (\<lambda>k. k \<notin> set (keys vals)) (keys items) = Some k"
      by (simp add: keys_def)
    have g: "dict_get vals k' = Inr v" using Some by (simp add: dict_get_def)
    show ?thesis
      using 2(1) [OF g _ f] 2(2) [OF g _ f] by (simp add: g)
  qed
qed

text \<open>The loop reads the sample at the keys of its items only.\<close>

lemma detect_loop_agree:
  assumes "\<forall>k \<in> set (keys items). map_of vals k = map_of vals' k"
  shows "detect_loop items vals acc = detect_loop items vals' acc"
  using assms
proof (induction items vals acc rule: detect_loop.induct)
  case (1 vals anomalies)
  then show ?case by simp
next
  case (2 k' low high items vals anomalies)
  have e: "dict_get vals' k' = dict_get vals k'"
    using 2(3) by (simp add: dict_get_def keys_def)
  have r: "\<forall>k \<in> set (keys items). map_of vals k = map_of vals' k"
    using 2(3) by (simp add: keys_def)
  show ?case
  proof (cases "dict_get vals k'")
    case (Inl e')
    then show ?thesis using e by simp
  next
    case (Inr v)
    then show ?thesis using e 2(1) [OF Inr _ r] 2(2) [OF Inr _ r] by simp
  qed
qed

lemma report_entries:
  assumes "(k, a) \<in> set
     ((if \<not> (10 \<le> c \<and> c \<le> 15)
       then [(''cpu_usage'', \<lparr>anomaly_value = c, expected_range = ''10-15''\<rparr>)] else []) @
      (if \<not> (20 \<le> n \<and> n \<le> 40)
       then [(''network_activity'', \<lparr>anomaly_value = n, expected_range = ''20-40''\<rparr>)]
       else []) @
      (if \<not> (0 \<le> f \<and> f \<le> (3::int))
       then [(''file_access_rate'', \<lparr>anomaly_value = f, expected_range = ''0-3''\<rparr>)]
       else []))"
  shows "(k, a) = (''cpu_usage'', \<lparr>anomaly_value = c, expected_range = ''10-15''\<rparr>)
       \<or> (k, a) = (''network_activity'', \<lparr>anomaly_value = n, expected_range = ''20-40''\<rparr>)
       \<or> (k, a) = (''file_access_rate'', \<lparr>anomaly_value = f, expected_range = ''0-3''\<rparr>)"
  using assms by (auto split: if_splits)

lemma sample_member:
  assumes "cycle_index \<noteq> total' - 1"
    and "5 \<le> c" "c \<le> 45" "10 \<le> n" "n \<le> 50" "0 \<le> f" "f \<le> 7"
  shows "[(''cpu_usage'', c), (''network_activity'', n), (''file_access_rate'', f)]
           \<in> simulate_behavior cycle_index total'"
  using assms by (simp add: simulate_behavior_def randint_def image_iff)

lemma baseline_items:
  assumes "(k, low, high) \<in> set baseline"
  shows "(k, low, high) = (''cpu_usage'', 10, 15)
       \<or> (k, low, high) = (''network_activity'', 20, 40)
       \<or> (k, low, high) = (''file_access_rate'', 0, 3)"
  using assms by (simp add: baseline_def)

text \<open>
  C1. For a sample that has the three baseline metrics, \<open>detect_anomalies\<close> returns a
  report, and a metric is a key of the report exactly when its value is not within
  \<open>low \<le> v \<le> high\<close>. In particular a value equal to \<open>low\<close> or to \<open>high\<close> is not
  reported, and a value equal to \<open>low - 1\<close> or to \<open>high + 1\<close> is.
\<close>

theorem detect_anomalies_outside_range:
  assumes "set (keys baseline) \<subseteq> set (keys vals)"
  shows "\<exists>anomalies. detect_anomalies vals = Inr anomalies \<and>
     (\<forall>(k, low, high) \<in> set baseline. \<forall>v. map_of vals k = Some v \<longrightarrow>
        ((k \<in> set (keys anomalies)) = (\<not> (low \<le> v \<and> v \<le> high))) \<and>
        (v = low \<or> v = high \<longrightarrow> k \<notin> set (keys anomalies)) \<and>
        (v = low - 1 \<or> v = high + 1 \<longrightarrow> k \<in> set (keys anomalies)))"
proof -
  from assms obtain c n f where p: "map_of vals ''cpu_usage'' = Some c"
    "map_of vals ''network_activity'' = Some n" "map_of vals ''file_access_rate'' = Some f"
    by (rule keys_present)
  show ?thesis
    unfolding detect_anomalies_present [OF p]
    using p by (auto simp: baseline_def keys_def)
qed

theorem detect_anomalies_outside_range_witness:
  "set (keys baseline)
     \<subseteq> set (keys [(''cpu_usage'', 9 :: int), (''network_activity'', 40),
                    (''file_access_rate'', 4)])
   \<and> (\<exists>anomalies.
        detect_anomalies [(''cpu_usage'', 9), (''network_activity'', 40), (''file_access_rate'', 4)]
          = Inr anomalies
        \<and> ''cpu_usage'' \<in> set (keys anomalies)
        \<and> ''network_activity'' \<notin> set (keys anomalies)
        \<and> ''file_access_rate'' \<in> set (keys anomalies))"
proof -
  let ?vals = "[(''cpu_usage'', 9), (''network_activity'', 40), (''file_access_rate'', 4 :: int)]"
  have h: "set (keys baseline) \<subseteq> set (keys ?vals)"
    by (simp add: keys_def baseline_def)
  from detect_anomalies_outside_range [OF h] obtain anomalies where
    a: "detect_anomalies ?vals = Inr anomalies"
    and b: "\<forall>(k, low, high) \<in> set baseline. \<forall>v. map_of ?vals k = Some v \<longrightarrow>
        ((k \<in> set (keys anomalies)) = (\<not> (low \<le> v \<and> v \<le> high))) \<and>
        (v = low \<or> v = high \<longrightarrow> k \<notin> set (keys anomalies)) \<and>
        (v = low - 1 \<or> v = high + 1 \<longrightarrow> k \<in> set (keys anomalies))"
    by blast
  from b have "''cpu_usage'' \<in> set (keys anomalies)"
    "''network_activity'' \<notin> set (keys anomalies)"
    "''file_access_rate'' \<in> set (keys anomalies)"
    by (simp_all add: baseline_def)
  with h a show ?thesis by blast
qed

text \<open>
  C10. \<open>detect_anomalies\<close> looks the sample up at the keys of \<open>baseline\<close> and nowhere
  else: it returns a report for every sample that has the three keys; two samples that
  agree on these keys get the same result, whatever other keys they hold; if a baseline key
  is missing it raises \<open>KeyError\<close>, for the first missing key in the order of \<open>baseline\<close>;
  every key of a returned report is a baseline key, and its entry holds the sample's value
  for that key and the string \<open>low-high\<close> of that key's range.
\<close>

theorem detect_anomalies_lookups:
  "(set (keys baseline) \<subseteq> set (keys vals) \<longrightarrow> (\<exists>anomalies. detect_anomalies vals = Inr anomalies))
   \<and> ((\<forall>k \<in> set (keys baseline). map_of vals k = map_of vals' k)
        \<longrightarrow> detect_anomalies vals = detect_anomalies vals')
   \<and> (\<not> set (keys baseline) \<subseteq> set (keys vals) \<longrightarrow>
        (\<exists>k \<in> set (keys baseline). k \<notin> set (keys vals)
           \<and> detect_anomalies vals = Inl (KeyError k)))
   \<and> (\<forall>k. List.find (\<lambda>k. k \<notin> set (keys vals)) (keys baseline) = Some k
        \<longrightarrow> detect_anomalies vals = Inl (KeyError k))
   \<and> (\<forall>anomalies. detect_anomalies vals = Inr anomalies \<longrightarrow>
        set (keys anomalies) \<subseteq> set (keys baseline)
        \<and> (\<forall>(k, a) \<in> set anomalies. \<exists>low high.
              (k, low, high) \<in> set baseline
              \<and> map_of vals k = Some (anomaly_value a)
              \<and> expected_range a = str_int low @ ''-'' @ str_int high))"
proof (intro conjI allI impI)
  assume "set (keys baseline) \<subseteq> set (keys vals)"
  then obtain c n f where p: "map_of vals ''cpu_usage'' = Some c"
    "map_of vals ''network_activity'' = Some n" "map_of vals ''file_access_rate'' = Some f"
    by (rule keys_present)
  show "\<exists>anomalies. detect_anomalies vals = Inr anomalies"
    by (simp add: detect_anomalies_present [OF p])
next
  assume "\<forall>k \<in> set (keys baseline). map_of vals k = map_of vals' k"
  then show "detect_anomalies vals = detect_anomalies vals'"
    unfolding detect_anomalies_def by (rule detect_loop_agree)
next
  assume "\<not> set (keys baseline) \<subseteq> set (keys vals)"
  then obtain k where k: "List.find (\<lambda>k. k \<notin> set (keys vals)) (keys baseline) = Some k"
    by (cases "List.find (\<lambda>k. k \<notin> set (keys vals)) (keys baseline)")
       (auto simp: find_None_iff)
  then have "k \<in> set (keys baseline)" "k \<notin> set (keys vals)"
    by (auto simp: find_Some_iff)
  moreover from k have "detect_anomalies vals = Inl (KeyError k)"
    unfolding detect_anomalies_def by (rule detect_loop_missing)
  ultimately show "\<exists>k \<in> set (keys baseline). k \<notin> set (keys vals)
           \<and> detect_anomalies vals = Inl (KeyError k)"
    by blast
next
  fix k assume "List.find (\<lambda>k. k \<notin> set (keys vals)) (keys baseline) = Some k"
  then show "detect_anomalies vals = Inl (KeyError k)"
    unfolding detect_anomalies_def by (rule detect_loop_missing)
next
  fix anomalies assume d: "detect_anomalies vals = Inr anomalies"
  have "List.find (\<lambda>k. k \<notin> set (keys vals)) (keys baseline) = None"
  proof (cases "List.find (\<lambda>k. k \<notin> set (keys vals)) (keys baseline)")
    case (Some k)
    then have "detect_anomalies vals = Inl (KeyError k)"
      unfolding detect_anomalies_def by (rule detect_loop_missing)
    with d show ?thesis by simp
  qed simp
  then have "set (keys baseline) \<subseteq> set (keys vals)"
    by (auto simp: find_None_iff)
  then obtain c n f where p: "map_of vals ''cpu_usage'' = Some c"
    "map_of vals ''network_activity'' = Some n" "map_of vals ''file_access_rate'' = Some f"
    by (rule keys_present)
  from d have a: "anomalies =
      (if \<not> (10 \<le> c \<and> c \<le> 15)
       then [(''cpu_usage'', \<lparr>anomaly_value = c, expected_range = ''10-15''\<rparr>)] else []) @
      (if \<not> (20 \<le> n \<and> n \<le> 40)
       then [(''network_activity'', \<lparr>anomaly_value = n, expected_range = ''20-40''\<rparr>)]
       else []) @
      (if \<not> (0 \<le> f \<and> f \<le> 3)
       then [(''file_access_rate'', \<lparr>anomaly_value = f, expected_range = ''0-3''\<rparr>)]
       else [])"
    by (simp add: detect_anomalies_present [OF p])
  show "set (keys anomalies) \<subseteq> set (keys baseline)"
    unfolding a by (auto simp: keys_def baseline_def)
  have "\<exists>low high. (k, low, high) \<in> set baseline
              \<and> map_of vals k = Some (anomaly_value e)
              \<and> expected_range e = str_int low @ ''-'' @ str_int high"
    if m: "(k, e) \<in> set anomalies" for k e
  proof -
    from m have "(k, e) = (''cpu_usage'', \<lparr>anomaly_value = c, expected_range = ''10-15''\<rparr>)
       \<or> (k, e) = (''network_activity'', \<lparr>anomaly_value = n, expected_range = ''20-40''\<rparr>)
       \<or> (k, e) = (''file_access_rate'', \<lparr>anomaly_value = f, expected_range = ''0-3''\<rparr>)"
      unfolding a by (rule report_entries)
    then show ?thesis
    proof (elim disjE)
      assume "(k, e) = (''cpu_usage'', \<lparr>anomaly_value = c, expected_range = ''10-15''\<rparr>)"
      then show ?thesis using p
        by (intro exI [of _ 10] exI [of _ 15]) (simp add: baseline_def baseline_str)
    next
      assume "(k, e) = (''network_activity'', \<lparr>anomaly_value = n, expected_range = ''20-40''\<rparr>)"
      then show ?thesis using p
        by (intro exI [of _ 20] exI [of _ 40]) (simp add: baseline_def baseline_str)
    next
      assume "(k, e) = (''file_access_rate'', \<lparr>anomaly_value = f, expected_range = ''0-3''\<rparr>)"
      then show ?thesis using p
        by (intro exI [of _ 0] exI [of _ 3]) (simp add: baseline_def baseline_str)
    qed
  qed
  then show "\<forall>(k, a) \<in> set anomalies. \<exists>low high.
              (k, low, high) \<in> set baseline
              \<and> map_of vals k = Some (anomaly_value a)
              \<and> expected_range a = str_int low @ ''-'' @ str_int high"
    by blast
qed

theorem detect_anomalies_lookups_witness:
  "set (keys baseline)
     \<subseteq> set (keys [(''extra'', 99 :: int), (''file_access_rate'', 4), (''network_activity'', 30),
                    (''cpu_usage'', 12)])
   \<and> keys baseline = [''cpu_usage'', ''network_activity'', ''file_access_rate'']
   \<and> map_of [(''extra'', 99 :: int), (''file_access_rate'', 4), (''network_activity'', 30),
              (''cpu_usage'', 12)] ''cpu_usage''
       = map_of [(''cpu_usage'', 12), (''network_activity'', 30), (''file_access_rate'', 4)]
           ''cpu_usage''
   \<and> map_of [(''extra'', 99 :: int), (''file_access_rate'', 4), (''network_activity'', 30),
              (''cpu_usage'', 12)] ''network_activity''
       = map_of [(''cpu_usage'', 12), (''network_activity'', 30), (''file_access_rate'', 4)]
           ''network_activity''
   \<and> map_of [(''extra'', 99 :: int), (''file_access_rate'', 4), (''network_activity'', 30),
              (''cpu_usage'', 12)] ''file_access_rate''
       = map_of [(''cpu_usage'', 12), (''network_activity'', 30), (''file_access_rate'', 4)]
           ''file_access_rate''
   \<and> detect_anomalies [(''extra'', 99), (''file_access_rate'', 4), (''network_activity'', 30),
                        (''cpu_usage'', 12)]
       = detect_anomalies [(''cpu_usage'', 12), (''network_activity'', 30), (''file_access_rate'', 4)]
   \<and> detect_anomalies [(''cpu_usage'', 12), (''network_activity'', 30), (''file_access_rate'', 4)]
       = Inr [(''file_access_rate'', \<lparr>anomaly_value = 4, expected_range = ''0-3''\<rparr>)]
   \<and> (''file_access_rate'', 0, 3) \<in> set baseline
   \<and> \<not> set (keys baseline) \<subseteq> set (keys [(''cpu_usage'', 12 :: int), (''extra'', 99)])
   \<and> List.find (\<lambda>k. k \<notin> set (keys [(''cpu_usage'', 12 :: int), (''extra'', 99)])) (keys baseline)
       = Some ''network_activity''
   \<and> detect_anomalies [(''cpu_usage'', 12), (''extra'', 99)] = Inl (KeyError ''network_activity'')"
proof -
  let ?extra = "[(''extra'', 99 :: int), (''file_access_rate'', 4), (''network_activity'', 30),
                 (''cpu_usage'', 12)]"
  let ?plain = "[(''cpu_usage'', 12 :: int), (''network_activity'', 30), (''file_access_rate'', 4)]"
  let ?short = "[(''cpu_usage'', 12 :: int), (''extra'', 99)]"
  have h1: "set (keys baseline) \<subseteq> set (keys ?extra)"
    by (simp add: keys_def baseline_def)
  have h2: "\<forall>k \<in> set (keys baseline). map_of ?extra k = map_of ?plain k"
    by (simp add: keys_def baseline_def)
  have h3: "List.find (\<lambda>k. k \<notin> set (keys ?short)) (keys baseline) = Some ''network_activity''"
    by (simp add: keys_def baseline_def)
  have h4: "detect_anomalies ?plain
       = Inr [(''file_access_rate'', \<lparr>anomaly_value = 4, expected_range = ''0-3''\<rparr>)]"
    by (simp add: detect_anomalies_present)
  have h5: "(''file_access_rate'', 0, 3) \<in> set baseline"
    by (simp add: baseline_def)
  have h6: "\<not> set (keys baseline) \<subseteq> set (keys ?short)"
    by (simp add: keys_def baseline_def)
  from detect_anomalies_lookups [of ?extra ?plain] h2
  have c2: "detect_anomalies ?extra = detect_anomalies ?plain" by blast
  from detect_anomalies_lookups [of ?short ?short] h3
  have c3: "detect_anomalies ?short = Inl (KeyError ''network_activity'')" by blast
  have k: "keys baseline = [''cpu_usage'', ''network_activity'', ''file_access_rate'']"
    by (simp add: keys_def baseline_def)
  have e: "map_of ?extra ''cpu_usage'' = map_of ?plain ''cpu_usage''"
    "map_of ?extra ''network_activity'' = map_of ?plain ''network_activity''"
    "map_of ?extra ''file_access_rate'' = map_of ?plain ''file_access_rate''"
    by simp_all
  show ?thesis
    using h1 k e c2 h4 h5 h6 h3 c3 by (intro conjI)
qed

section \<open>Facts about the sample generator\<close>

text \<open>
  C2. Whatever the number of cycles, the call for the last cycle, \<open>cycle = total - 1\<close>,
  can only return the fixed sample 12, 30, 1; each of its values is within the baseline
  range of its metric, and the detector's report for it is empty.
\<close>

theorem final_cycle_within_baseline:
  "simulate_behavior (total' - 1) total'
     = {[(''cpu_usage'', 12), (''network_activity'', 30), (''file_access_rate'', 1)]}
   \<and> (\<forall>vals \<in> simulate_behavior (total' - 1) total'.
        (\<forall>(k, low, high) \<in> set baseline. \<exists>v. map_of vals k = Some v \<and> low \<le> v \<and> v \<le> high)
        \<and> detect_anomalies vals = Inr [])"
  by (simp add: simulate_behavior_def baseline_def detect_anomalies_present)

theorem final_cycle_within_baseline_witness:
  "[(''cpu_usage'', 12), (''network_activity'', 30), (''file_access_rate'', 1)]
     \<in> simulate_behavior (3 - 1) 3
   \<and> (''network_activity'', 20, 40) \<in> set baseline
   \<and> (\<exists>v. map_of [(''cpu_usage'', 12), (''network_activity'', 30), (''file_access_rate'', 1)]
              ''network_activity'' = Some v \<and> 20 \<le> v \<and> v \<le> (40::int))
   \<and> detect_anomalies [(''cpu_usage'', 12), (''network_activity'', 30), (''file_access_rate'', 1)]
       = Inr []"
proof -
  let ?final = "[(''cpu_usage'', 12 :: int), (''network_activity'', 30), (''file_access_rate'', 1)]"
  note t = final_cycle_within_baseline [of 3]
  have m: "(''network_activity'', 20, 40) \<in> set baseline" by (simp add: baseline_def)
  have h: "?final \<in> simulate_behavior (3 - 1) 3"
    unfolding t [THEN conjunct1] by (rule singletonI)
  note c = t [THEN conjunct2, THEN bspec, OF h]
  from c [THEN conjunct1, THEN bspec, OF m]
  have c1: "\<exists>v. map_of ?final ''network_activity'' = Some v \<and> 20 \<le> v \<and> v \<le> 40"
    by simp
  show ?thesis
    using h m c1 c [THEN conjunct2] by (intro conjI)
qed

text \<open>
  C4. On a cycle that is not the last one, every sample the generator can return holds
  exactly the three metrics, with \<open>cpu_usage\<close> in 5..45, \<open>network_activity\<close> in 10..50
  and \<open>file_access_rate\<close> in 0..7.
\<close>

theorem wide_ranges:
  assumes "cycle_index \<noteq> total' - 1" and "vals \<in> simulate_behavior cycle_index total'"
  shows "\<exists>c n f. vals = [(''cpu_usage'', c), (''network_activity'', n), (''file_access_rate'', f)]
           \<and> 5 \<le> c \<and> c \<le> 45 \<and> 10 \<le> n \<and> n \<le> 50 \<and> 0 \<le> f \<and> f \<le> 7"
  using assms by (auto simp: simulate_behavior_def randint_def)

theorem wide_ranges_witness:
  "(0::int) \<noteq> 3 - 1
   \<and> [(''cpu_usage'', 45), (''network_activity'', 10), (''file_access_rate'', 7)]
        \<in> simulate_behavior 0 3
   \<and> (\<exists>c n f. [(''cpu_usage'', 45), (''network_activity'', 10), (''file_access_rate'', 7)]
             = [(''cpu_usage'', c), (''network_activity'', n), (''file_access_rate'', f)]
           \<and> 5 \<le> c \<and> c \<le> 45 \<and> 10 \<le> n \<and> n \<le> 50 \<and> 0 \<le> f \<and> f \<le> (7::int))"
proof -
  have h1: "(0::int) \<noteq> 3 - 1" by simp
  have h2: "[(''cpu_usage'', 45), (''network_activity'', 10), (''file_access_rate'', 7)]
        \<in> simulate_behavior 0 3"
    by (simp add: sample_member)
  from h1 h2 wide_ranges [OF h1 h2] show ?thesis by blast
qed

text \<open>
  C5. On a cycle that is not the last one, for each metric of the baseline the generator
  can return a sample whose value for the metric is within the baseline range, which the
  detector does not report, and a sample whose value is outside it, which the detector
  reports.
\<close>

theorem anomaly_possible_not_certain:
  assumes "cycle_index \<noteq> total' - 1"
  shows "\<forall>(k, low, high) \<in> set baseline.
           (\<exists>vals \<in> simulate_behavior cycle_index total'. \<exists>v anomalies.
               map_of vals k = Some v \<and> low \<le> v \<and> v \<le> high
               \<and> detect_anomalies vals = Inr anomalies \<and> k \<notin> set (keys anomalies))
         \<and> (\<exists>vals \<in> simulate_behavior cycle_index total'. \<exists>v anomalies.
               map_of vals k = Some v \<and> \<not> (low \<le> v \<and> v \<le> high)
               \<and> detect_anomalies vals = Inr anomalies \<and> k \<in> set (keys anomalies))"
proof -
  let ?inside = "[(''cpu_usage'', 10), (''network_activity'', 40), (''file_access_rate'', 0 :: int)]"
  let ?outside = "[(''cpu_usage'', 5), (''network_activity'', 50), (''file_access_rate'', 7 :: int)]"
  have i: "?inside \<in> simulate_behavior cycle_index total'"
    and out: "?outside \<in> simulate_behavior cycle_index total'"
    using assms by (simp_all add: sample_member)
  have di: "detect_anomalies ?inside = Inr []"
    by (simp add: detect_anomalies_present)
  have do: "detect_anomalies ?outside = Inr
      [(''cpu_usage'', \<lparr>anomaly_value = 5, expected_range = ''10-15''\<rparr>),
       (''network_activity'', \<lparr>anomaly_value = 50, expected_range = ''20-40''\<rparr>),
       (''file_access_rate'', \<lparr>anomaly_value = 7, expected_range = ''0-3''\<rparr>)]"
    by (simp add: detect_anomalies_present)
  have "\<exists>vals \<in> simulate_behavior cycle_index total'. \<exists>v anomalies.
               map_of vals k = Some v \<and> low \<le> v \<and> v \<le> high
               \<and> detect_anomalies vals = Inr anomalies \<and> k \<notin> set (keys anomalies)"
    if "(k, low, high) \<in> set baseline" for k low high
  proof (rule bexI [OF _ i])
    from that have "(k, low, high) = (''cpu_usage'', 10, 15)
        \<or> (k, low, high) = (''network_activity'', 20, 40)
        \<or> (k, low, high) = (''file_access_rate'', 0, 3)"
      by (rule baseline_items)
    then show "\<exists>v anomalies. map_of ?inside k = Some v \<and> low \<le> v \<and> v \<le> high
               \<and> detect_anomalies ?inside = Inr anomalies \<and> k \<notin> set (keys anomalies)"
      unfolding di by (elim disjE) (simp_all add: keys_def)
  qed
  moreover have "\<exists>vals \<in> simulate_behavior cycle_index total'. \<exists>v anomalies.
               map_of vals k = Some v \<and> \<not> (low \<le> v \<and> v \<le> high)
               \<and> detect_anomalies vals = Inr anomalies \<and> k \<in> set (keys anomalies)"
    if "(k, low, high) \<in> set baseline" for k low high
  proof (rule bexI [OF _ out])
    from that have "(k, low, high) = (''cpu_usage'', 10, 15)
        \<or> (k, low, high) = (''network_activity'', 20, 40)
        \<or> (k, low, high) = (''file_access_rate'', 0, 3)"
      by (rule baseline_items)
    then show "\<exists>v anomalies. map_of ?outside k = Some v \<and> \<not> (low \<le> v \<and> v \<le> high)
               \<and> detect_anomalies ?outside = Inr anomalies \<and> k \<in> set (keys anomalies)"
      unfolding do by (elim disjE) (simp_all add: keys_def)
  qed
  ultimately show ?thesis by blast
qed

theorem anomaly_possible_not_certain_witness:
  "(0::int) \<noteq> 3 - 1
   \<and> (''cpu_usage'', 10, 15) \<in> set baseline
   \<and> (\<exists>vals \<in> simulate_behavior 0 3. \<exists>v anomalies.
         map_of vals ''cpu_usage'' = Some v \<and> 10 \<le> v \<and> v \<le> 15
         \<and> detect_anomalies vals = Inr anomalies \<and> ''cpu_usage'' \<notin> set (keys anomalies))
   \<and> (\<exists>vals \<in> simulate_behavior 0 3. \<exists>v anomalies.
         map_of vals ''cpu_usage'' = Some v \<and> \<not> (10 \<le> v \<and> v \<le> 15)
         \<and> detect_anomalies vals = Inr anomalies \<and> ''cpu_usage'' \<in> set (keys anomalies))"
proof -
  have h: "(0::int) \<noteq> 3 - 1" by simp
  have m: "(''cpu_usage'', 10, 15) \<in> set baseline" by (simp add: baseline_def)
  from anomaly_possible_not_certain [OF h] m
  have "(\<exists>vals \<in> simulate_behavior 0 3. \<exists>v anomalies.
         map_of vals ''cpu_usage'' = Some v \<and> 10 \<le> v \<and> v \<le> 15
         \<and> detect_anomalies vals = Inr anomalies \<and> ''cpu_usage'' \<notin> set (keys anomalies))
   \<and> (\<exists>vals \<in> simulate_behavior 0 3. \<exists>v anomalies.
         map_of vals ''cpu_usage'' = Some v \<and> \<not> (10 \<le> v \<and> v \<le> 15)
         \<and> detect_anomalies vals = Inr anomalies \<and> ''cpu_usage'' \<in> set (keys anomalies))"
    by fast
  with h m show ?thesis by blast
qed

section \<open>Facts about the script\<close>

text \<open>
  C6. A run in which the reset button was pressed has one outcome, whatever the stored
  state: the simulation is not running, the cycle counter is 0, the number of cycles is
  unchanged, and the script is run again.
\<close>

theorem reset_clears_run_state:
  assumes "reset_pressed inp"
  shows "\<exists>r. run_simulation inp stored = {Inr r}
           \<and> simulation_running (session r) = False \<and> cycle (session r) = 0
           \<and> total_cycles (session r) = total_cycles (initialise stored)
           \<and> ended r = Rerun"
  using assms by (simp add: run_simulation_def st_button_def Let_def press_start_def)

theorem reset_clears_run_state_witness:
  "reset_pressed \<lparr>start_pressed = False, reset_pressed = True, now = ''2026-01-01 10:00:00''\<rparr>
   \<and> (\<exists>r. run_simulation
               \<lparr>start_pressed = False, reset_pressed = True, now = ''2026-01-01 10:00:00''\<rparr>
               (Some \<lparr>simulation_running = True, cycle = 2, total_cycles = 3\<rparr>) = {Inr r}
           \<and> session r = \<lparr>simulation_running = False, cycle = 0, total_cycles = 3\<rparr>
           \<and> ended r = Rerun)"
proof -
  let ?inp = "\<lparr>start_pressed = False, reset_pressed = True, now = ''2026-01-01 10:00:00''\<rparr>"
  let ?stored = "Some \<lparr>simulation_running = True, cycle = 2, total_cycles = 3\<rparr>"
  have h: "reset_pressed ?inp" by simp
  from reset_clears_run_state [OF h, of ?stored] obtain r where
    r: "run_simulation ?inp ?stored = {Inr r}" "simulation_running (session r) = False"
       "cycle (session r) = 0" "total_cycles (session r) = total_cycles (initialise ?stored)"
       "ended r = Rerun"
    by blast
  then have "session r = \<lparr>simulation_running = False, cycle = 0, total_cycles = 3\<rparr>"
    by (cases "session r") (simp add: initialise_def)
  with h r show ?thesis by blast
qed


subsection \<open>The parts of a run\<close>

lemma run_simulation_branches:
  "run_simulation inp stored =
     (if reset_pressed inp
      then {Inr \<lparr>rendered = page_top (initialise stored),
                  session = (entry_state inp stored)\<lparr>simulation_running := False, cycle := 0\<rparr>,
                  ended = Rerun\<rparr>}
      else case phase_of (entry_state inp stored) of
             Running \<Rightarrow>
               monitoring_cycle (now inp) (entry_state inp stored) (entry_page inp stored)
                 ` simulate_behavior (cycle (entry_state inp stored))
                     (total_cycles (entry_state inp stored))
           | Complete \<Rightarrow>
               {Inr (simulation_complete (entry_state inp stored) (entry_page inp stored))}
           | Idle \<Rightarrow>
               {Inr \<lparr>rendered = entry_page inp stored @ about_page,
                     session = entry_state inp stored, ended = Finished\<rparr>})"
  by (simp add: run_simulation_def Let_def st_button_def entry_state_def entry_page_def
      phase_of_def)

lemma sample_shape:
  assumes "vals \<in> simulate_behavior i t"
  obtains c n f where
    "vals = [(''cpu_usage'', c), (''network_activity'', n), (''file_access_rate'', f)]"
  using assms by (auto simp: simulate_behavior_def split: if_splits)

lemma metric_status_Inr:
  assumes "map_of vals k = Some v"
  shows "metric_status vals anomalies k label u =
     Inr (if k \<in> set (keys anomalies)
          then StError (red_circle @ label @ str_int v @ u)
          else StSuccess (check_mark @ label @ str_int v @ u))"
  using assms by (simp add: metric_status_def dict_get_def)

lemma display_metrics_Inr:
  assumes "vals = [(''cpu_usage'', c), (''network_activity'', n), (''file_access_rate'', f)]"
  shows "\<exists>m1 m2 m3. display_metrics vals anomalies = Inr [m1, m2, m3]
           \<and> (\<forall>m \<in> {m1, m2, m3}. (\<exists>t. m = StError t) \<or> (\<exists>t. m = StSuccess t))"
  unfolding assms display_metrics_def
  by (simp add: metric_status_Inr)

lemma filter_display_metrics:
  assumes "display_metrics vals anomalies = Inr status"
  shows "filter is_json status = []" and "filter is_response_step status = []"
  using assms
  by (auto simp: display_metrics_def metric_status_def split: sum.splits if_splits)

lemma filter_display_anomalies:
  "filter is_json (display_anomalies anomalies) = []"
  "filter is_response_step (display_anomalies anomalies) = []"
  by (simp_all add: display_anomalies_def)

lemma show_threat_response_steps:
  "show_threat_response =
     [StError (siren @ '' **Threat Detected! Initiating Response...**''),
      StEmpty,
      PhWarning (magnifier @ '' Analyzing threat patterns...''), Sleep 1,
      PhWarning (shield @ vs16 @ '' Isolating affected systems...''), Sleep 1,
      PhWarning (wrench @ '' Rolling back malicious changes...''), Sleep 1,
      PhSuccess (check_mark @ '' System healed and secured!''), Sleep 1]"
  by (simp add: show_threat_response_def response_steps_def)

lemma monitoring_cycle_samples:
  assumes "vals \<in> simulate_behavior i t"
  shows "\<exists>anomalies status. detect_anomalies vals = Inr anomalies
           \<and> display_metrics vals anomalies = Inr status"
proof -
  from assms obtain c n f where
    v: "vals = [(''cpu_usage'', c), (''network_activity'', n), (''file_access_rate'', f)]"
    by (rule sample_shape)
  have "\<exists>anomalies. detect_anomalies vals = Inr anomalies"
    unfolding v by (simp add: detect_anomalies_present)
  moreover have "\<exists>status. display_metrics vals anomalies = Inr status" for anomalies
    using display_metrics_Inr [OF v] by blast
  ultimately show ?thesis by blast
qed

lemma monitoring_cycle_session:
  assumes "monitoring_cycle timestamp s page vals = Inr r"
  shows "session r = s\<lparr>cycle := cycle s + 1\<rparr>" and "ended r = Rerun"
  using assms by (auto simp: monitoring_cycle_def split: sum.splits)

lemma monitoring_cycle_rendered:
  assumes "monitoring_cycle timestamp s page vals = Inr r"
  shows "\<exists>anomalies status. detect_anomalies vals = Inr anomalies
     \<and> display_metrics vals anomalies = Inr status
     \<and> rendered r =
         page
         @ [StMarkdown (''### '' @ bar_chart @ '' Monitoring Cycle ''
              @ str_int (cycle s + 1) @ '' of '' @ str_int (total_cycles s))]
         @ status
         @ [StMarkdown ''---'']
         @ display_anomalies anomalies
         @ [StExpander (clipboard @ '' Detailed System Data''),
            StJson (PyDict
              [(''timestamp'', PyStr timestamp),
               (''cycle'', PyInt (cycle s + 1)),
               (''metrics'', PyDict (map (\<lambda>(k, v). (k, PyInt v)) vals)),
               (''anomalies'',
                  if truthy anomalies
                  then PyDict (map (\<lambda>(k, a).
                         (k, PyDict [(''value'', PyInt (anomaly_value a)),
                                     (''expected_range'', PyStr (expected_range a))]))
                       anomalies)
                  else PyStr ''None detected'')])]
         @ (if truthy anomalies then show_threat_response @ [Sleep 2] else [Sleep 2])
         @ [Sleep 1]"
  using assms by (auto simp: monitoring_cycle_def split: sum.splits)


lemma simulation_complete_session:
  "session (simulation_complete s page) = s\<lparr>simulation_running := False\<rparr>"
  "ended (simulation_complete s page) = Finished"
  by (simp_all add: simulation_complete_def Let_def)

lemma run_never_raises:
  assumes "res \<in> run_simulation inp stored"
  shows "\<exists>r. res = Inr r"
proof (cases "reset_pressed inp")
  case True
  with assms show ?thesis by (simp add: run_simulation_branches)
next
  case False
  show ?thesis
  proof (cases "phase_of (entry_state inp stored)")
    case Idle
    with assms False show ?thesis by (simp add: run_simulation_branches)
  next
    case Complete
    with assms False show ?thesis by (simp add: run_simulation_branches)
  next
    case Running
    with assms False obtain vals where
      v: "vals \<in> simulate_behavior (cycle (entry_state inp stored))
                 (total_cycles (entry_state inp stored))"
      and r: "res = monitoring_cycle (now inp) (entry_state inp stored)
                 (entry_page inp stored) vals"
      by (auto simp: run_simulation_branches)
    from monitoring_cycle_samples [OF v] show ?thesis
      unfolding r by (auto simp: monitoring_cycle_def)
  qed
qed

lemma run_nonempty: "run_simulation inp stored \<noteq> {}"
proof -
  have "simulate_behavior i t \<noteq> {}" for i t
    by (simp add: simulate_behavior_def randint_def)
  then show ?thesis
    by (simp add: run_simulation_branches split: phase.split)
qed

text \<open>The bounds on the counter, kept by every part of a run.\<close>

lemma entry_state_bounds:
  assumes "0 \<le> cycle (initialise stored)"
    and "cycle (initialise stored) \<le> total_cycles (initialise stored)"
    and "total_cycles (initialise stored) = 3"
  shows "0 \<le> cycle (entry_state inp stored)
       \<and> cycle (entry_state inp stored) \<le> total_cycles (entry_state inp stored)
       \<and> total_cycles (entry_state inp stored) = 3"
  using assms by (simp add: entry_state_def press_start_def)

lemma run_keeps_bounds:
  assumes "0 \<le> cycle (initialise stored)"
    and "cycle (initialise stored) \<le> total_cycles (initialise stored)"
    and "total_cycles (initialise stored) = 3"
    and "Inr r \<in> run_simulation inp stored"
  shows "0 \<le> cycle (session r) \<and> cycle (session r) \<le> total_cycles (session r)
       \<and> total_cycles (session r) = 3"
proof -
  note b = entry_state_bounds [OF assms(1-3), of inp]
  show ?thesis
  proof (cases "reset_pressed inp")
    case True
    with assms(4) b show ?thesis by (simp add: run_simulation_branches)
  next
    case False
    show ?thesis
    proof (cases "phase_of (entry_state inp stored)")
      case Idle
      with assms(4) False b show ?thesis by (simp add: run_simulation_branches)
    next
      case Complete
      with assms(4) False b show ?thesis
        by (simp add: run_simulation_branches simulation_complete_session)
    next
      case Running
      with assms(4) False obtain vals where
        "monitoring_cycle (now inp) (entry_state inp stored) (entry_page inp stored) vals
           = Inr r"
        by (auto simp: run_simulation_branches)
      then have "session r = (entry_state inp stored)\<lparr>cycle := cycle (entry_state inp stored) + 1\<rparr>"
        by (rule monitoring_cycle_session)
      moreover from Running have "cycle (entry_state inp stored) < total_cycles (entry_state inp stored)"
        by (simp add: phase_of_def split: if_splits)
      ultimately show ?thesis using b by simp
    qed
  qed
qed

lemma history_bounds:
  assumes "history h stored"
  shows "0 \<le> cycle (initialise stored)
       \<and> cycle (initialise stored) \<le> total_cycles (initialise stored)
       \<and> total_cycles (initialise stored) = 3"
  using assms
proof (induction rule: history.induct)
  case fresh
  show ?case by (simp add: initialise_def)
next
  case (run h stored r inp)
  from run.IH run.hyps(2) have "0 \<le> cycle (session r) \<and> cycle (session r) \<le> total_cycles (session r)
       \<and> total_cycles (session r) = 3"
    by (intro run_keeps_bounds) simp_all
  then show ?case by (simp add: initialise_def)
qed

lemma filter_entry_page:
  "filter is_json (page_top s) = []" "filter is_response_step (page_top s) = []"
  "filter is_json (entry_page inp stored) = []"
  "filter is_response_step (entry_page inp stored) = []"
  by (simp_all add: page_top_def entry_page_def)


lemma simulation_complete_rendered:
  "rendered (simulation_complete s page) =
     page
     @ [StSuccess (party @ '' **Simulation Complete!**''),
        StInfo (''The CyberDNA system successfully detected and responded ''
                @ ''to all threats. System is now secure.''),
        StMarkdown (''### '' @ chart_up @ '' Simulation Summary'')]
     @ [StMetric ''Total Cycles'' (PyInt (total_cycles s)),
        StMetric ''Threats Detected'' (PyInt (total_cycles s - 1)),
        StMetric ''Response Time'' (PyStr ''< 3 seconds per threat''),
        StMetric ''System Status'' (PyStr (''Secure '' @ check_mark))]"
  by (simp add: simulation_complete_def Let_def summary_data_def)

lemma filter_show_threat_response:
  "filter is_json show_threat_response = []"
  "filter is_response_step show_threat_response =
     [PhWarning (magnifier @ '' Analyzing threat patterns...''),
      PhWarning (shield @ vs16 @ '' Isolating affected systems...''),
      PhWarning (wrench @ '' Rolling back malicious changes...''),
      PhSuccess (check_mark @ '' System healed and secured!'')]"
  by (simp_all add: show_threat_response_steps)

lemma monitoring_cycle_filters:
  assumes "monitoring_cycle timestamp s page vals = Inr r"
    and "detect_anomalies vals = Inr anomalies"
  shows "filter is_response_step (rendered r) =
           filter is_response_step page
           @ (if truthy anomalies then filter is_response_step show_threat_response else [])"
    and "filter is_json (rendered r) =
           filter is_json page
           @ [StJson (PyDict
              [(''timestamp'', PyStr timestamp),
               (''cycle'', PyInt (cycle s + 1)),
               (''metrics'', PyDict (map (\<lambda>(k, v). (k, PyInt v)) vals)),
               (''anomalies'',
                  if truthy anomalies
                  then PyDict (map (\<lambda>(k, a).
                         (k, PyDict [(''value'', PyInt (anomaly_value a)),
                                     (''expected_range'', PyStr (expected_range a))]))
                       anomalies)
                  else PyStr ''None detected'')])]"
proof -
  from assms monitoring_cycle_rendered [OF assms(1)]
  obtain status where st: "display_metrics vals anomalies = Inr status"
    and r: "rendered r =
         page
         @ [StMarkdown (''### '' @ bar_chart @ '' Monitoring Cycle ''
              @ str_int (cycle s + 1) @ '' of '' @ str_int (total_cycles s))]
         @ status
         @ [StMarkdown ''---'']
         @ display_anomalies anomalies
         @ [StExpander (clipboard @ '' Detailed System Data''),
            StJson (PyDict
              [(''timestamp'', PyStr timestamp),
               (''cycle'', PyInt (cycle s + 1)),
               (''metrics'', PyDict (map (\<lambda>(k, v). (k, PyInt v)) vals)),
               (''anomalies'',
                  if truthy anomalies
                  then PyDict (map (\<lambda>(k, a).
                         (k, PyDict [(''value'', PyInt (anomaly_value a)),
                                     (''expected_range'', PyStr (expected_range a))]))
                       anomalies)
                  else PyStr ''None detected'')])]
         @ (if truthy anomalies then show_threat_response @ [Sleep 2] else [Sleep 2])
         @ [Sleep 1]"
    by auto
  show "filter is_response_step (rendered r) =
           filter is_response_step page
           @ (if truthy anomalies then filter is_response_step show_threat_response else [])"
    unfolding r
    by (simp add: filter_display_metrics [OF st] filter_display_anomalies)
  show "filter is_json (rendered r) =
           filter is_json page
           @ [StJson (PyDict
              [(''timestamp'', PyStr timestamp),
               (''cycle'', PyInt (cycle s + 1)),
               (''metrics'', PyDict (map (\<lambda>(k, v). (k, PyInt v)) vals)),
               (''anomalies'',
                  if truthy anomalies
                  then PyDict (map (\<lambda>(k, a).
                         (k, PyDict [(''value'', PyInt (anomaly_value a)),
                                     (''expected_range'', PyStr (expected_range a))]))
                       anomalies)
                  else PyStr ''None detected'')])]"
    unfolding r
    by (simp add: filter_display_metrics [OF st] filter_display_anomalies
        filter_show_threat_response)
qed


lemma run_monitoring_member:
  assumes "\<not> reset_pressed inp" and "phase_of (entry_state inp stored) = Running"
    and "vals \<in> simulate_behavior (cycle (entry_state inp stored))
                  (total_cycles (entry_state inp stored))"
  obtains r where "Inr r \<in> run_simulation inp stored"
    and "monitoring_cycle (now inp) (entry_state inp stored) (entry_page inp stored) vals = Inr r"
proof -
  have m: "monitoring_cycle (now inp) (entry_state inp stored) (entry_page inp stored) vals
        \<in> run_simulation inp stored"
    using assms by (simp add: run_simulation_branches)
  from run_never_raises [OF m] obtain r where
    "monitoring_cycle (now inp) (entry_state inp stored) (entry_page inp stored) vals = Inr r"
    by blast
  with m that show ?thesis by simp
qed

lemma phase_of_simps:
  "phase_of s = Running \<longleftrightarrow> simulation_running s \<and> cycle s < total_cycles s"
  "phase_of s = Complete \<longleftrightarrow> simulation_running s \<and> \<not> cycle s < total_cycles s"
  "phase_of s = Idle \<longleftrightarrow> \<not> simulation_running s"
  by (simp_all add: phase_of_def)


lemma monitoring_cycle_Inr:
  assumes "vals \<in> simulate_behavior i t"
  obtains r where "monitoring_cycle timestamp s page vals = Inr r"
  using monitoring_cycle_samples [OF assms]
  by (auto simp: monitoring_cycle_def)

lemma run_result_exists:
  obtains r where "Inr r \<in> run_simulation inp stored"
proof -
  obtain res where "res \<in> run_simulation inp stored"
    using run_nonempty [of inp stored] by blast
  with run_never_raises that show ?thesis by blast
qed


lemma responded_iff: "responded r \<longleftrightarrow> filter is_response_step (rendered r) \<noteq> []"
  by (auto simp: responded_def filter_empty_conv)

lemma history_monitoring_step:
  assumes "history h stored" and "\<not> reset_pressed inp"
    and "phase_of (entry_state inp stored) = Running"
    and "vals \<in> simulate_behavior (cycle (entry_state inp stored))
                  (total_cycles (entry_state inp stored))"
    and "detect_anomalies vals = Inr anomalies"
  obtains r where "Inr r \<in> run_simulation inp stored"
    and "history (h @ [r])
           (Some ((entry_state inp stored)\<lparr>cycle := cycle (entry_state inp stored) + 1\<rparr>))"
    and "responded r = truthy anomalies"
proof -
  from assms(2-4) obtain r where m: "Inr r \<in> run_simulation inp stored"
    and c: "monitoring_cycle (now inp) (entry_state inp stored) (entry_page inp stored) vals
              = Inr r"
    by (rule run_monitoring_member)
  from history.run [OF assms(1) m] monitoring_cycle_session(1) [OF c]
  have "history (h @ [r])
           (Some ((entry_state inp stored)\<lparr>cycle := cycle (entry_state inp stored) + 1\<rparr>))"
    by simp
  moreover have "responded r = truthy anomalies"
    by (simp add: responded_iff monitoring_cycle_filters(1) [OF c assms(5)] filter_entry_page
        filter_show_threat_response)
  ultimately show ?thesis using m that by blast
qed

lemma entry_state_start:
  "entry_state \<lparr>start_pressed = True, reset_pressed = False, now = t\<rparr> None
     = \<lparr>simulation_running = True, cycle = 0, total_cycles = 3\<rparr>"
  by (simp add: entry_state_def press_start_def initialise_def st_button_def)

lemma entry_state_idle:
  "entry_state \<lparr>start_pressed = False, reset_pressed = False, now = t\<rparr> (Some s) = s"
  by (simp add: entry_state_def press_start_def initialise_def st_button_def)

text \<open>
  A session of three monitoring cycles, with given samples for the first two; the third
  cycle is the last one and has the fixed sample.
\<close>

lemma three_cycles:
  assumes "5 \<le> c" "c \<le> 45" "10 \<le> n" "n \<le> 50" "0 \<le> f" "f \<le> 7"
    and "detect_anomalies [(''cpu_usage'', c), (''network_activity'', n), (''file_access_rate'', f)]
           = Inr anomalies"
  obtains r1 r2 r3 where
    "history [r1, r2] (Some \<lparr>simulation_running = True, cycle = 2, total_cycles = 3\<rparr>)"
    and "history [r1, r2, r3] (Some \<lparr>simulation_running = True, cycle = 3, total_cycles = 3\<rparr>)"
    and "responded r1 = truthy anomalies" and "responded r2 = truthy anomalies"
    and "\<not> responded r3"
proof -
  let ?start = "\<lparr>start_pressed = True, reset_pressed = False, now = ''2026-01-01 10:00:00''\<rparr>"
  let ?next = "\<lparr>start_pressed = False, reset_pressed = False, now = ''2026-01-01 10:00:04''\<rparr>"
  let ?vals = "[(''cpu_usage'', c), (''network_activity'', n), (''file_access_rate'', f)]"
  let ?final = "[(''cpu_usage'', 12 :: int), (''network_activity'', 30), (''file_access_rate'', 1)]"
  have v0: "?vals \<in> simulate_behavior 0 3" and v1: "?vals \<in> simulate_behavior 1 3"
    using assms(1-6) by (simp_all add: sample_member)
  have v2: "?final \<in> simulate_behavior 2 3"
    by (simp add: simulate_behavior_def)
  have d2: "detect_anomalies ?final = Inr []"
    by (simp add: detect_anomalies_present)
  have n0: "\<not> reset_pressed ?start" and n1: "\<not> reset_pressed ?next"
    by simp_all
  have ph0: "phase_of (entry_state ?start None) = Running"
    by (simp add: entry_state_start phase_of_simps)
  have w0: "?vals \<in> simulate_behavior (cycle (entry_state ?start None))
                       (total_cycles (entry_state ?start None))"
    using v0 by (simp add: entry_state_start)
  obtain r1 where g1: "history ([] @ [r1])
      (Some ((entry_state ?start None)\<lparr>cycle := cycle (entry_state ?start None) + 1\<rparr>))"
    and p1: "responded r1 = truthy anomalies"
    using history_monitoring_step [OF history.fresh n0 ph0 w0 assms(7)] by blast
  let ?s1 = "\<lparr>simulation_running = True, cycle = 1, total_cycles = 3\<rparr>"
  from g1 have h1: "history [r1] (Some ?s1)"
    by (simp add: entry_state_start)
  have ph1: "phase_of (entry_state ?next (Some ?s1)) = Running"
    by (simp add: entry_state_idle phase_of_simps)
  have w1: "?vals \<in> simulate_behavior (cycle (entry_state ?next (Some ?s1)))
                       (total_cycles (entry_state ?next (Some ?s1)))"
    using v1 by (simp add: entry_state_idle)
  obtain r2 where g2: "history ([r1] @ [r2])
      (Some ((entry_state ?next (Some ?s1))
               \<lparr>cycle := cycle (entry_state ?next (Some ?s1)) + 1\<rparr>))"
    and p2: "responded r2 = truthy anomalies"
    using history_monitoring_step [OF h1 n1 ph1 w1 assms(7)] by blast
  let ?s2 = "\<lparr>simulation_running = True, cycle = 2, total_cycles = 3\<rparr>"
  from g2 have h2: "history [r1, r2] (Some ?s2)"
    by (simp add: entry_state_idle)
  have ph2: "phase_of (entry_state ?next (Some ?s2)) = Running"
    by (simp add: entry_state_idle phase_of_simps)
  have w2: "?final \<in> simulate_behavior (cycle (entry_state ?next (Some ?s2)))
                       (total_cycles (entry_state ?next (Some ?s2)))"
    using v2 by (simp add: entry_state_idle)
  obtain r3 where g3: "history ([r1, r2] @ [r3])
      (Some ((entry_state ?next (Some ?s2))
               \<lparr>cycle := cycle (entry_state ?next (Some ?s2)) + 1\<rparr>))"
    and p3: "responded r3 = truthy ([] :: anomaly dict)"
    using history_monitoring_step [OF h2 n1 ph2 w2 d2] by blast
  from g3 have h3: "history [r1, r2, r3]
      (Some \<lparr>simulation_running = True, cycle = 3, total_cycles = 3\<rparr>)"
    by (simp add: entry_state_idle)
  from h2 h3 p1 p2 p3 that show ?thesis by (simp add: truthy_def)
qed

lemma monitoring_cycle_responded:
  assumes "monitoring_cycle timestamp s page vals = Inr r"
    and "detect_anomalies vals = Inr anomalies"
    and "filter is_response_step page = []"
  shows "responded r \<longleftrightarrow> anomalies \<noteq> []"
  by (simp add: responded_iff monitoring_cycle_filters(1) [OF assms(1,2)] assms(3)
      filter_show_threat_response truthy_def)

subsection \<open>The response, the record and the state machine\<close>

text \<open>
  C7. The response has no parameter: it writes the banner, makes the placeholder and then
  writes four fixed messages into it, the first three as warnings and the last as a success,
  each followed by a sleep of one second. A monitoring cycle whose report is not empty ends
  with this sequence, and the messages it writes into the placeholder are these four in
  this order, whatever the sample and the report are.
\<close>

theorem threat_response_fixed:
  "show_threat_response =
     [StError (siren @ '' **Threat Detected! Initiating Response...**''),
      StEmpty,
      PhWarning (magnifier @ '' Analyzing threat patterns...''), Sleep 1,
      PhWarning (shield @ vs16 @ '' Isolating affected systems...''), Sleep 1,
      PhWarning (wrench @ '' Rolling back malicious changes...''), Sleep 1,
      PhSuccess (check_mark @ '' System healed and secured!''), Sleep 1]
   \<and> (\<forall>anomalies r.
         detect_anomalies vals = Inr anomalies \<and> truthy anomalies
         \<and> monitoring_cycle timestamp s page vals = Inr r \<longrightarrow>
         (\<exists>before. rendered r = before @ show_threat_response @ [Sleep 2, Sleep 1])
         \<and> filter is_response_step (rendered r) =
             filter is_response_step page
             @ [PhWarning (magnifier @ '' Analyzing threat patterns...''),
                PhWarning (shield @ vs16 @ '' Isolating affected systems...''),
                PhWarning (wrench @ '' Rolling back malicious changes...''),
                PhSuccess (check_mark @ '' System healed and secured!'')])"
proof (intro conjI allI impI)
  show "show_threat_response =
     [StError (siren @ '' **Threat Detected! Initiating Response...**''),
      StEmpty,
      PhWarning (magnifier @ '' Analyzing threat patterns...''), Sleep 1,
      PhWarning (shield @ vs16 @ '' Isolating affected systems...''), Sleep 1,
      PhWarning (wrench @ '' Rolling back malicious changes...''), Sleep 1,
      PhSuccess (check_mark @ '' System healed and secured!''), Sleep 1]"
    by (rule show_threat_response_steps)
next
  fix anomalies r
  assume a: "detect_anomalies vals = Inr anomalies \<and> truthy anomalies
         \<and> monitoring_cycle timestamp s page vals = Inr r"
  from a monitoring_cycle_rendered [of timestamp s page vals r]
  obtain status where st: "display_metrics vals anomalies = Inr status"
    and r: "rendered r =
         page
         @ [StMarkdown (''### '' @ bar_chart @ '' Monitoring Cycle ''
              @ str_int (cycle s + 1) @ '' of '' @ str_int (total_cycles s))]
         @ status
         @ [StMarkdown ''---'']
         @ display_anomalies anomalies
         @ [StExpander (clipboard @ '' Detailed System Data''),
            StJson (PyDict
              [(''timestamp'', PyStr timestamp),
               (''cycle'', PyInt (cycle s + 1)),
               (''metrics'', PyDict (map (\<lambda>(k, v). (k, PyInt v)) vals)),
               (''anomalies'',
                  if truthy anomalies
                  then PyDict (map (\<lambda>(k, a).
                         (k, PyDict [(''value'', PyInt (anomaly_value a)),
                                     (''expected_range'', PyStr (expected_range a))]))
                       anomalies)
                  else PyStr ''None detected'')])]
         @ (if truthy anomalies then show_threat_response @ [Sleep 2] else [Sleep 2])
         @ [Sleep 1]"
    by auto
  from a have t: "truthy anomalies" by simp
  show "\<exists>before. rendered r = before @ show_threat_response @ [Sleep 2, Sleep 1]"
    unfolding r using t by (simp flip: append_assoc)
  show "filter is_response_step (rendered r) =
             filter is_response_step page
             @ [PhWarning (magnifier @ '' Analyzing threat patterns...''),
                PhWarning (shield @ vs16 @ '' Isolating affected systems...''),
                PhWarning (wrench @ '' Rolling back malicious changes...''),
                PhSuccess (check_mark @ '' System healed and secured!'')]"
    unfolding r using t
    by (simp add: filter_display_metrics [OF st] filter_display_anomalies
        show_threat_response_steps)
qed

theorem threat_response_fixed_witness:
  "\<exists>r1 r2.
     detect_anomalies [(''cpu_usage'', 44), (''network_activity'', 30), (''file_access_rate'', 1)]
       = Inr [(''cpu_usage'', \<lparr>anomaly_value = 44, expected_range = ''10-15''\<rparr>)]
     \<and> truthy [(''cpu_usage'', \<lparr>anomaly_value = 44, expected_range = ''10-15''\<rparr>)]
     \<and> monitoring_cycle ''2026-01-01 10:00:00''
           \<lparr>simulation_running = True, cycle = 0, total_cycles = 3\<rparr> []
           [(''cpu_usage'', 44), (''network_activity'', 30), (''file_access_rate'', 1)] = Inr r1
     \<and> detect_anomalies [(''cpu_usage'', 12), (''network_activity'', 50), (''file_access_rate'', 7)]
       = Inr [(''network_activity'', \<lparr>anomaly_value = 50, expected_range = ''20-40''\<rparr>),
              (''file_access_rate'', \<lparr>anomaly_value = 7, expected_range = ''0-3''\<rparr>)]
     \<and> truthy [(''network_activity'', \<lparr>anomaly_value = 50, expected_range = ''20-40''\<rparr>),
               (''file_access_rate'', \<lparr>anomaly_value = 7, expected_range = ''0-3''\<rparr>)]
     \<and> monitoring_cycle ''2026-01-01 10:00:00''
           \<lparr>simulation_running = True, cycle = 0, total_cycles = 3\<rparr> []
           [(''cpu_usage'', 12), (''network_activity'', 50), (''file_access_rate'', 7)] = Inr r2
     \<and> filter is_response_step (rendered r1) =
           [PhWarning (magnifier @ '' Analyzing threat patterns...''),
            PhWarning (shield @ vs16 @ '' Isolating affected systems...''),
            PhWarning (wrench @ '' Rolling back malicious changes...''),
            PhSuccess (check_mark @ '' System healed and secured!'')]
     \<and> filter is_response_step (rendered r2) = filter is_response_step (rendered r1)"
proof -
  let ?v1 = "[(''cpu_usage'', 44 :: int), (''network_activity'', 30), (''file_access_rate'', 1)]"
  let ?v2 = "[(''cpu_usage'', 12 :: int), (''network_activity'', 50), (''file_access_rate'', 7)]"
  let ?a1 = "[(''cpu_usage'', \<lparr>anomaly_value = 44, expected_range = ''10-15''\<rparr>)]"
  let ?a2 = "[(''network_activity'', \<lparr>anomaly_value = 50, expected_range = ''20-40''\<rparr>),
              (''file_access_rate'', \<lparr>anomaly_value = 7, expected_range = ''0-3''\<rparr>)]"
  let ?s = "\<lparr>simulation_running = True, cycle = 0, total_cycles = 3\<rparr>"
  have d1: "detect_anomalies ?v1 = Inr ?a1" and d2: "detect_anomalies ?v2 = Inr ?a2"
    by (simp_all add: detect_anomalies_present)
  have t1: "truthy ?a1" and t2: "truthy ?a2"
    by (simp_all add: truthy_def)
  have i1: "?v1 \<in> simulate_behavior 0 3" and i2: "?v2 \<in> simulate_behavior 0 3"
    by (simp_all add: sample_member)
  obtain r1 where m1: "monitoring_cycle ''2026-01-01 10:00:00'' ?s [] ?v1 = Inr r1"
    by (rule monitoring_cycle_Inr [OF i1])
  obtain r2 where m2: "monitoring_cycle ''2026-01-01 10:00:00'' ?s [] ?v2 = Inr r2"
    by (rule monitoring_cycle_Inr [OF i2])
  note f1 = threat_response_fixed [THEN conjunct2, THEN spec, THEN spec, THEN mp,
      OF conjI [OF d1 conjI [OF t1 m1]], THEN conjunct2]
  note f2 = threat_response_fixed [THEN conjunct2, THEN spec, THEN spec, THEN mp,
      OF conjI [OF d2 conjI [OF t2 m2]], THEN conjunct2]
  from f1 have g1: "filter is_response_step (rendered r1) =
           [PhWarning (magnifier @ '' Analyzing threat patterns...''),
            PhWarning (shield @ vs16 @ '' Isolating affected systems...''),
            PhWarning (wrench @ '' Rolling back malicious changes...''),
            PhSuccess (check_mark @ '' System healed and secured!'')]"
    by simp
  from f2 g1 have g2: "filter is_response_step (rendered r2) = filter is_response_step (rendered r1)"
    by simp
  show ?thesis
    using d1 t1 m1 d2 t2 m2 g1 g2
    by (intro exI [of _ r1] exI [of _ r2] conjI)
qed




text \<open>
  C3. A session starts with the counter at 0 and three cycles. In every state a session
  reaches, and at every point of a run where the state is read, the counter is between 0
  and the number of cycles, which stays 3. A run that finds the simulation running with
  cycles left performs one monitoring cycle and then leaves the counter increased by one:
  it takes a sample of the generator, gets the detector's report for it, and writes, after
  the heading of the page, the cycle's title, the three status lines, the report or the
  all-clear line, the record, and the response exactly when the report is not empty; then
  it sleeps, increments the counter and asks for the next run. The state it leaves is
  complete exactly when the counter equals the number of cycles, and has cycles left
  exactly when the counter is below it. The completion branch is taken exactly when the
  simulation is running and the counter equals the number of cycles, and it stops the
  simulation.
\<close>

theorem cycle_state_machine:
  assumes "history h stored" and "Inr r \<in> run_simulation inp stored"
    and "s1 = entry_state inp stored"
  shows "initialise None = \<lparr>simulation_running = False, cycle = 0, total_cycles = 3\<rparr>
     \<and> (\<forall>s \<in> {initialise stored, s1, session r}.
           0 \<le> cycle s \<and> cycle s \<le> total_cycles s \<and> total_cycles s = 3)
     \<and> (\<not> reset_pressed inp \<and> phase_of s1 = Running \<longrightarrow>
           (\<exists>vals \<in> simulate_behavior (cycle s1) (total_cycles s1). \<exists>anomalies status.
               monitoring_cycle (now inp) s1 (entry_page inp stored) vals = Inr r
               \<and> detect_anomalies vals = Inr anomalies
               \<and> display_metrics vals anomalies = Inr status
               \<and> rendered r =
                 entry_page inp stored
                 @ [StMarkdown (''### '' @ bar_chart @ '' Monitoring Cycle ''
                      @ str_int (cycle s1 + 1) @ '' of '' @ str_int (total_cycles s1))]
                 @ status
                 @ [StMarkdown ''---'']
                 @ display_anomalies anomalies
                 @ [StExpander (clipboard @ '' Detailed System Data''),
                    StJson (PyDict
                      [(''timestamp'', PyStr (now inp)),
                       (''cycle'', PyInt (cycle s1 + 1)),
                       (''metrics'', PyDict (map (\<lambda>(k, v). (k, PyInt v)) vals)),
                       (''anomalies'',
                          if truthy anomalies
                          then PyDict (map (\<lambda>(k, a).
                                 (k, PyDict [(''value'', PyInt (anomaly_value a)),
                                             (''expected_range'', PyStr (expected_range a))]))
                               anomalies)
                          else PyStr ''None detected'')])]
                 @ (if truthy anomalies then show_threat_response @ [Sleep 2] else [Sleep 2])
                 @ [Sleep 1]
               \<and> (responded r \<longleftrightarrow> anomalies \<noteq> [])
               \<and> ended r = Rerun)
           \<and> session r = s1\<lparr>cycle := cycle s1 + 1\<rparr>
           \<and> (phase_of (session r) = Running \<longleftrightarrow> cycle (session r) < total_cycles (session r))
           \<and> (phase_of (session r) = Complete \<longleftrightarrow> cycle (session r) = total_cycles (session r)))
     \<and> (phase_of s1 = Complete \<longleftrightarrow> simulation_running s1 \<and> cycle s1 = total_cycles s1)
     \<and> (\<not> reset_pressed inp \<and> phase_of s1 = Complete \<longrightarrow>
           r = simulation_complete s1 (entry_page inp stored) \<and> phase_of (session r) = Idle)"
proof -
  note b0 = history_bounds [OF assms(1)]
  from b0 have b1: "0 \<le> cycle s1 \<and> cycle s1 \<le> total_cycles s1 \<and> total_cycles s1 = 3"
    unfolding assms(3) by (intro entry_state_bounds) simp_all
  from b0 assms(2) have b2: "0 \<le> cycle (session r) \<and> cycle (session r) \<le> total_cycles (session r)
       \<and> total_cycles (session r) = 3"
    by (intro run_keeps_bounds) simp_all
  have i: "initialise None = \<lparr>simulation_running = False, cycle = 0, total_cycles = 3\<rparr>"
    by (simp add: initialise_def)
  have inv: "\<forall>s \<in> {initialise stored, s1, session r}.
           0 \<le> cycle s \<and> cycle s \<le> total_cycles s \<and> total_cycles s = 3"
    using b0 b1 b2 by simp
  have run: "(\<exists>vals \<in> simulate_behavior (cycle s1) (total_cycles s1). \<exists>anomalies status.
               monitoring_cycle (now inp) s1 (entry_page inp stored) vals = Inr r
               \<and> detect_anomalies vals = Inr anomalies
               \<and> display_metrics vals anomalies = Inr status
               \<and> rendered r =
                 entry_page inp stored
                 @ [StMarkdown (''### '' @ bar_chart @ '' Monitoring Cycle ''
                      @ str_int (cycle s1 + 1) @ '' of '' @ str_int (total_cycles s1))]
                 @ status
                 @ [StMarkdown ''---'']
                 @ display_anomalies anomalies
                 @ [StExpander (clipboard @ '' Detailed System Data''),
                    StJson (PyDict
                      [(''timestamp'', PyStr (now inp)),
                       (''cycle'', PyInt (cycle s1 + 1)),
                       (''metrics'', PyDict (map (\<lambda>(k, v). (k, PyInt v)) vals)),
                       (''anomalies'',
                          if truthy anomalies
                          then PyDict (map (\<lambda>(k, a).
                                 (k, PyDict [(''value'', PyInt (anomaly_value a)),
                                             (''expected_range'', PyStr (expected_range a))]))
                               anomalies)
                          else PyStr ''None detected'')])]
                 @ (if truthy anomalies then show_threat_response @ [Sleep 2] else [Sleep 2])
                 @ [Sleep 1]
               \<and> (responded r \<longleftrightarrow> anomalies \<noteq> [])
               \<and> ended r = Rerun)
           \<and> session r = s1\<lparr>cycle := cycle s1 + 1\<rparr>
           \<and> (phase_of (session r) = Running \<longleftrightarrow> cycle (session r) < total_cycles (session r))
           \<and> (phase_of (session r) = Complete \<longleftrightarrow> cycle (session r) = total_cycles (session r))"
    if a: "\<not> reset_pressed inp \<and> phase_of s1 = Running"
  proof -
    from a assms(2,3) obtain vals where
      v: "vals \<in> simulate_behavior (cycle s1) (total_cycles s1)"
      and m: "monitoring_cycle (now inp) s1 (entry_page inp stored) vals = Inr r"
      by (auto simp: run_simulation_branches)
    from monitoring_cycle_rendered [OF m] obtain anomalies status where
      d: "detect_anomalies vals = Inr anomalies"
      and st: "display_metrics vals anomalies = Inr status"
      and w: "rendered r =
                 entry_page inp stored
                 @ [StMarkdown (''### '' @ bar_chart @ '' Monitoring Cycle ''
                      @ str_int (cycle s1 + 1) @ '' of '' @ str_int (total_cycles s1))]
                 @ status
                 @ [StMarkdown ''---'']
                 @ display_anomalies anomalies
                 @ [StExpander (clipboard @ '' Detailed System Data''),
                    StJson (PyDict
                      [(''timestamp'', PyStr (now inp)),
                       (''cycle'', PyInt (cycle s1 + 1)),
                       (''metrics'', PyDict (map (\<lambda>(k, v). (k, PyInt v)) vals)),
                       (''anomalies'',
                          if truthy anomalies
                          then PyDict (map (\<lambda>(k, a).
                                 (k, PyDict [(''value'', PyInt (anomaly_value a)),
                                             (''expected_range'', PyStr (expected_range a))]))
                               anomalies)
                          else PyStr ''None detected'')])]
                 @ (if truthy anomalies then show_threat_response @ [Sleep 2] else [Sleep 2])
                 @ [Sleep 1]"
      by (elim exE conjE)
    have rs: "responded r \<longleftrightarrow> anomalies \<noteq> []"
      by (rule monitoring_cycle_responded [OF m d filter_entry_page(4)])
    from m have s: "session r = s1\<lparr>cycle := cycle s1 + 1\<rparr>" and e: "ended r = Rerun"
      by (rule monitoring_cycle_session)+
    from a have "simulation_running s1" by (simp add: phase_of_simps)
    with s have rr: "simulation_running (session r)" by simp
    from rr b2 have ph:
      "phase_of (session r) = Running \<longleftrightarrow> cycle (session r) < total_cycles (session r)"
      "phase_of (session r) = Complete \<longleftrightarrow> cycle (session r) = total_cycles (session r)"
      by (auto simp: phase_of_simps)
    have "(\<exists>vals \<in> simulate_behavior (cycle s1) (total_cycles s1). \<exists>anomalies status.
               monitoring_cycle (now inp) s1 (entry_page inp stored) vals = Inr r
               \<and> detect_anomalies vals = Inr anomalies
               \<and> display_metrics vals anomalies = Inr status
               \<and> rendered r =
                 entry_page inp stored
                 @ [StMarkdown (''### '' @ bar_chart @ '' Monitoring Cycle ''
                      @ str_int (cycle s1 + 1) @ '' of '' @ str_int (total_cycles s1))]
                 @ status
                 @ [StMarkdown ''---'']
                 @ display_anomalies anomalies
                 @ [StExpander (clipboard @ '' Detailed System Data''),
                    StJson (PyDict
                      [(''timestamp'', PyStr (now inp)),
                       (''cycle'', PyInt (cycle s1 + 1)),
                       (''metrics'', PyDict (map (\<lambda>(k, v). (k, PyInt v)) vals)),
                       (''anomalies'',
                          if truthy anomalies
                          then PyDict (map (\<lambda>(k, a).
                                 (k, PyDict [(''value'', PyInt (anomaly_value a)),
                                             (''expected_range'', PyStr (expected_range a))]))
                               anomalies)
                          else PyStr ''None detected'')])]
                 @ (if truthy anomalies then show_threat_response @ [Sleep 2] else [Sleep 2])
                 @ [Sleep 1]
               \<and> (responded r \<longleftrightarrow> anomalies \<noteq> [])
               \<and> ended r = Rerun)"
      using m d st w rs e by (intro bexI [OF _ v] exI [of _ anomalies] exI [of _ status] conjI)
    with s ph show ?thesis by (intro conjI)
  qed
  have c: "phase_of s1 = Complete \<longleftrightarrow> simulation_running s1 \<and> cycle s1 = total_cycles s1"
    using b1 by (auto simp: phase_of_simps)
  have fin: "r = simulation_complete s1 (entry_page inp stored) \<and> phase_of (session r) = Idle"
    if a: "\<not> reset_pressed inp \<and> phase_of s1 = Complete"
    using a assms(2,3)
    by (simp add: run_simulation_branches simulation_complete_session phase_of_simps(3))
  show ?thesis
  proof (intro conjI)
    show "initialise None = \<lparr>simulation_running = False, cycle = 0, total_cycles = 3\<rparr>"
      by (rule i)
    show "\<forall>s \<in> {initialise stored, s1, session r}.
           0 \<le> cycle s \<and> cycle s \<le> total_cycles s \<and> total_cycles s = 3"
      by (rule inv)
    show "phase_of s1 = Complete \<longleftrightarrow> simulation_running s1 \<and> cycle s1 = total_cycles s1"
      by (rule c)
    show "\<not> reset_pressed inp \<and> phase_of s1 = Complete \<longrightarrow>
           r = simulation_complete s1 (entry_page inp stored) \<and> phase_of (session r) = Idle"
      by (rule impI) (rule fin)
  qed (rule impI, rule run)
qed

theorem cycle_state_machine_witness:
  "\<exists>r1 h2 r3 h3 r4.
     history [] None
     \<and> monitoring_cycle ''2026-01-01 10:00:00''
          \<lparr>simulation_running = True, cycle = 0, total_cycles = 3\<rparr>
          (entry_page
             \<lparr>start_pressed = True, reset_pressed = False, now = ''2026-01-01 10:00:00''\<rparr>
             None)
          [(''cpu_usage'', 44), (''network_activity'', 30), (''file_access_rate'', 1)] = Inr r1
     \<and> Inr r1 \<in> run_simulation
          \<lparr>start_pressed = True, reset_pressed = False, now = ''2026-01-01 10:00:00''\<rparr> None
     \<and> \<not> reset_pressed
          \<lparr>start_pressed = True, reset_pressed = False, now = ''2026-01-01 10:00:00''\<rparr>
     \<and> phase_of (entry_state
          \<lparr>start_pressed = True, reset_pressed = False, now = ''2026-01-01 10:00:00''\<rparr> None)
         = Running
     \<and> session r1 = \<lparr>simulation_running = True, cycle = 1, total_cycles = 3\<rparr>
     \<and> phase_of (session r1) = Running
     \<and> responded r1
     \<and> history h2 (Some \<lparr>simulation_running = True, cycle = 2, total_cycles = 3\<rparr>)
     \<and> monitoring_cycle ''2026-01-01 10:00:08''
          \<lparr>simulation_running = True, cycle = 2, total_cycles = 3\<rparr>
          (entry_page
             \<lparr>start_pressed = False, reset_pressed = False, now = ''2026-01-01 10:00:08''\<rparr>
             (Some \<lparr>simulation_running = True, cycle = 2, total_cycles = 3\<rparr>))
          [(''cpu_usage'', 12), (''network_activity'', 30), (''file_access_rate'', 1)] = Inr r3
     \<and> Inr r3 \<in> run_simulation
          \<lparr>start_pressed = False, reset_pressed = False, now = ''2026-01-01 10:00:08''\<rparr>
          (Some \<lparr>simulation_running = True, cycle = 2, total_cycles = 3\<rparr>)
     \<and> phase_of (entry_state
          \<lparr>start_pressed = False, reset_pressed = False, now = ''2026-01-01 10:00:08''\<rparr>
          (Some \<lparr>simulation_running = True, cycle = 2, total_cycles = 3\<rparr>)) = Running
     \<and> session r3 = \<lparr>simulation_running = True, cycle = 3, total_cycles = 3\<rparr>
     \<and> phase_of (session r3) = Complete
     \<and> \<not> responded r3
     \<and> history h3 (Some \<lparr>simulation_running = True, cycle = 3, total_cycles = 3\<rparr>)
     \<and> Inr r4 \<in> run_simulation
          \<lparr>start_pressed = False, reset_pressed = False, now = ''2026-01-01 10:00:12''\<rparr>
          (Some \<lparr>simulation_running = True, cycle = 3, total_cycles = 3\<rparr>)
     \<and> \<not> reset_pressed
          \<lparr>start_pressed = False, reset_pressed = False, now = ''2026-01-01 10:00:12''\<rparr>
     \<and> phase_of (entry_state
          \<lparr>start_pressed = False, reset_pressed = False, now = ''2026-01-01 10:00:12''\<rparr>
          (Some \<lparr>simulation_running = True, cycle = 3, total_cycles = 3\<rparr>)) = Complete
     \<and> r4 = simulation_complete \<lparr>simulation_running = True, cycle = 3, total_cycles = 3\<rparr>
          (entry_page
             \<lparr>start_pressed = False, reset_pressed = False, now = ''2026-01-01 10:00:12''\<rparr>
             (Some \<lparr>simulation_running = True, cycle = 3, total_cycles = 3\<rparr>))
     \<and> session r4 = \<lparr>simulation_running = False, cycle = 3, total_cycles = 3\<rparr>
     \<and> phase_of (session r4) = Idle"
proof -
  let ?start = "\<lparr>start_pressed = True, reset_pressed = False, now = ''2026-01-01 10:00:00''\<rparr>"
  let ?last = "\<lparr>start_pressed = False, reset_pressed = False, now = ''2026-01-01 10:00:08''\<rparr>"
  let ?next = "\<lparr>start_pressed = False, reset_pressed = False, now = ''2026-01-01 10:00:12''\<rparr>"
  let ?two = "Some \<lparr>simulation_running = True, cycle = 2, total_cycles = 3\<rparr>"
  let ?done = "Some \<lparr>simulation_running = True, cycle = 3, total_cycles = 3\<rparr>"
  let ?loud = "[(''cpu_usage'', 44 :: int), (''network_activity'', 30), (''file_access_rate'', 1)]"
  let ?final = "[(''cpu_usage'', 12 :: int), (''network_activity'', 30), (''file_access_rate'', 1)]"
  have n0: "\<not> reset_pressed ?start" and n1: "\<not> reset_pressed ?next"
    and n2: "\<not> reset_pressed ?last" by simp_all
  have p0: "phase_of (entry_state ?start None) = Running"
    by (simp add: entry_state_start phase_of_simps)
  have v0: "?loud \<in> simulate_behavior (cycle (entry_state ?start None))
                       (total_cycles (entry_state ?start None))"
    by (simp add: entry_state_start sample_member)
  obtain r1 where r1: "Inr r1 \<in> run_simulation ?start None"
    and m1: "monitoring_cycle (now ?start) (entry_state ?start None) (entry_page ?start None) ?loud
              = Inr r1"
    by (rule run_monitoring_member [OF n0 p0 v0])
  note t0 = cycle_state_machine [OF history.fresh r1 refl]
  note c0 = t0 [THEN conjunct2, THEN conjunct2, THEN conjunct1, THEN mp, OF conjI [OF n0 p0]]
  from c0 [THEN conjunct2, THEN conjunct1]
  have s0: "session r1 = \<lparr>simulation_running = True, cycle = 1, total_cycles = 3\<rparr>"
    by (simp add: entry_state_start)
  from c0 [THEN conjunct2, THEN conjunct2, THEN conjunct1] s0
  have q0: "phase_of (session r1) = Running" by simp
  have dl: "detect_anomalies ?loud
      = Inr [(''cpu_usage'', \<lparr>anomaly_value = 44, expected_range = ''10-15''\<rparr>)]"
    by (simp add: detect_anomalies_present)
  have w1: "responded r1"
    using monitoring_cycle_responded [OF m1 dl filter_entry_page(4)] by simp
  from m1 have m1': "monitoring_cycle ''2026-01-01 10:00:00''
          \<lparr>simulation_running = True, cycle = 0, total_cycles = 3\<rparr>
          (entry_page ?start None) ?loud = Inr r1"
    by (simp add: entry_state_start)
  have bq: "(5::int) \<le> 12" "(12::int) \<le> 45" "(10::int) \<le> 30" "(30::int) \<le> 50"
    "(0::int) \<le> 1" "(1::int) \<le> 7"
    by simp_all
  have dq: "detect_anomalies ?final = Inr []"
    by (simp add: detect_anomalies_present)
  obtain q1 q2 q3 where h2: "history [q1, q2] ?two" and h3: "history [q1, q2, q3] ?done"
    and "responded q1 = truthy ([] :: anomaly dict)"
    and "responded q2 = truthy ([] :: anomaly dict)" and "\<not> responded q3"
    by (rule three_cycles [OF bq dq])
  have p2: "phase_of (entry_state ?last ?two) = Running"
    by (simp add: entry_state_idle phase_of_simps)
  have v2: "?final \<in> simulate_behavior (cycle (entry_state ?last ?two))
                       (total_cycles (entry_state ?last ?two))"
    by (simp add: entry_state_idle simulate_behavior_def)
  obtain r3 where r3: "Inr r3 \<in> run_simulation ?last ?two"
    and m3: "monitoring_cycle (now ?last) (entry_state ?last ?two) (entry_page ?last ?two) ?final
              = Inr r3"
    by (rule run_monitoring_member [OF n2 p2 v2])
  note t2 = cycle_state_machine [OF h2 r3 refl]
  note c2 = t2 [THEN conjunct2, THEN conjunct2, THEN conjunct1, THEN mp, OF conjI [OF n2 p2]]
  from c2 [THEN conjunct2, THEN conjunct1]
  have s2: "session r3 = \<lparr>simulation_running = True, cycle = 3, total_cycles = 3\<rparr>"
    by (simp add: entry_state_idle)
  from c2 [THEN conjunct2, THEN conjunct2, THEN conjunct2] s2
  have q2: "phase_of (session r3) = Complete" by simp
  from c2 [THEN conjunct1] have w3: "\<not> responded r3"
  proof (elim bexE exE conjE)
    fix vals anomalies
    assume v: "vals \<in> simulate_behavior (cycle (entry_state ?last ?two))
                        (total_cycles (entry_state ?last ?two))"
      and d: "detect_anomalies vals = Inr anomalies"
      and rs: "responded r3 = (anomalies \<noteq> [])"
    from v have "vals = ?final"
      by (simp add: entry_state_idle simulate_behavior_def)
    with d dq have "anomalies = []" by simp
    with rs show ?thesis by simp
  qed
  from m3 have m3': "monitoring_cycle ''2026-01-01 10:00:08''
          \<lparr>simulation_running = True, cycle = 2, total_cycles = 3\<rparr>
          (entry_page ?last ?two) ?final = Inr r3"
    by (simp add: entry_state_idle)
  obtain r4 where r4: "Inr r4 \<in> run_simulation ?next ?done"
    by (rule run_result_exists)
  have p1: "phase_of (entry_state ?next ?done) = Complete"
    by (simp add: entry_state_idle phase_of_simps)
  note t1 = cycle_state_machine [OF h3 r4 refl]
  note c1 = t1 [THEN conjunct2, THEN conjunct2, THEN conjunct2, THEN conjunct2, THEN mp,
                OF conjI [OF n1 p1]]
  from c1 [THEN conjunct1]
  have e4: "r4 = simulation_complete \<lparr>simulation_running = True, cycle = 3, total_cycles = 3\<rparr>
          (entry_page ?next ?done)"
    by (simp add: entry_state_idle)
  then have s4: "session r4 = \<lparr>simulation_running = False, cycle = 3, total_cycles = 3\<rparr>"
    by (simp add: simulation_complete_session)
  show ?thesis
    using history.fresh m1' r1 n0 p0 s0 q0 w1 h2 m3' r3 p2 s2 q2 w3 h3 r4 n1 p1 e4 s4
      c1 [THEN conjunct2]
    by (intro exI [of _ r1] exI [of _ "[q1, q2]"] exI [of _ r3] exI [of _ "[q1, q2, q3]"]
        exI [of _ r4] conjI)
qed

text \<open>
  C9. When a run takes the completion branch, the summary it shows ends with the four
  metrics, among them \<open>Threats Detected\<close> with the number of cycles minus one, which is 2
  in every session, whatever the earlier runs of the session wrote: after three cycles in
  which no response ran as well as after three cycles of which two ran the response.
\<close>

theorem summary_reports_total_minus_one:
  assumes "history h stored" and "Inr r \<in> run_simulation inp stored"
    and "\<not> reset_pressed inp" and "s1 = entry_state inp stored" and "phase_of s1 = Complete"
  shows "map_of (summary_data s1) ''Threats Detected'' = Some (PyInt (total_cycles s1 - 1))
     \<and> total_cycles s1 - 1 = 2
     \<and> (\<exists>before. rendered r =
           before @ [StMetric ''Total Cycles'' (PyInt 3),
                     StMetric ''Threats Detected'' (PyInt 2),
                     StMetric ''Response Time'' (PyStr ''< 3 seconds per threat''),
                     StMetric ''System Status'' (PyStr (''Secure '' @ check_mark))])"
proof -
  from history_bounds [OF assms(1)] have "total_cycles s1 = 3"
    unfolding assms(4) by (simp add: entry_state_bounds)
  moreover from assms(2,3,5) have "r = simulation_complete s1 (entry_page inp stored)"
    unfolding assms(4) by (simp add: run_simulation_branches)
  ultimately show ?thesis
    by (simp add: summary_data_def simulation_complete_rendered flip: append_assoc)
qed

theorem summary_reports_total_minus_one_witness:
  "\<exists>quiet loud.
     history quiet (Some \<lparr>simulation_running = True, cycle = 3, total_cycles = 3\<rparr>)
     \<and> length (filter responded quiet) = 0
     \<and> history loud (Some \<lparr>simulation_running = True, cycle = 3, total_cycles = 3\<rparr>)
     \<and> length (filter responded loud) = 2
     \<and> Inr (simulation_complete \<lparr>simulation_running = True, cycle = 3, total_cycles = 3\<rparr>
              (entry_page
                 \<lparr>start_pressed = False, reset_pressed = False, now = ''2026-01-01 10:00:12''\<rparr>
                 (Some \<lparr>simulation_running = True, cycle = 3, total_cycles = 3\<rparr>)))
         \<in> run_simulation
          \<lparr>start_pressed = False, reset_pressed = False, now = ''2026-01-01 10:00:12''\<rparr>
          (Some \<lparr>simulation_running = True, cycle = 3, total_cycles = 3\<rparr>)
     \<and> \<not> reset_pressed
            \<lparr>start_pressed = False, reset_pressed = False, now = ''2026-01-01 10:00:12''\<rparr>
     \<and> phase_of (entry_state
            \<lparr>start_pressed = False, reset_pressed = False, now = ''2026-01-01 10:00:12''\<rparr>
            (Some \<lparr>simulation_running = True, cycle = 3, total_cycles = 3\<rparr>)) = Complete
     \<and> (\<exists>before.
           rendered (simulation_complete
              \<lparr>simulation_running = True, cycle = 3, total_cycles = 3\<rparr>
              (entry_page
                 \<lparr>start_pressed = False, reset_pressed = False, now = ''2026-01-01 10:00:12''\<rparr>
                 (Some \<lparr>simulation_running = True, cycle = 3, total_cycles = 3\<rparr>))) =
           before @ [StMetric ''Total Cycles'' (PyInt 3),
                     StMetric ''Threats Detected'' (PyInt 2),
                     StMetric ''Response Time'' (PyStr ''< 3 seconds per threat''),
                     StMetric ''System Status'' (PyStr (''Secure '' @ check_mark))])"
proof -
  let ?inp = "\<lparr>start_pressed = False, reset_pressed = False, now = ''2026-01-01 10:00:12''\<rparr>"
  let ?done = "Some \<lparr>simulation_running = True, cycle = 3, total_cycles = 3\<rparr>"
  have dq: "detect_anomalies [(''cpu_usage'', 12), (''network_activity'', 30),
      (''file_access_rate'', 1)] = Inr []"
    by (simp add: detect_anomalies_present)
  have dl: "detect_anomalies [(''cpu_usage'', 45), (''network_activity'', 50),
      (''file_access_rate'', 7)] = Inr
      [(''cpu_usage'', \<lparr>anomaly_value = 45, expected_range = ''10-15''\<rparr>),
       (''network_activity'', \<lparr>anomaly_value = 50, expected_range = ''20-40''\<rparr>),
       (''file_access_rate'', \<lparr>anomaly_value = 7, expected_range = ''0-3''\<rparr>)]"
    by (simp add: detect_anomalies_present)
  have bq: "(5::int) \<le> 12" "(12::int) \<le> 45" "(10::int) \<le> 30" "(30::int) \<le> 50"
    "(0::int) \<le> 1" "(1::int) \<le> 7"
    by simp_all
  have bl: "(5::int) \<le> 45" "(45::int) \<le> 45" "(10::int) \<le> 50" "(50::int) \<le> 50"
    "(0::int) \<le> 7" "(7::int) \<le> 7"
    by simp_all
  obtain q1 q2 q3 where
    "history [q1, q2] (Some \<lparr>simulation_running = True, cycle = 2, total_cycles = 3\<rparr>)"
    and q: "history [q1, q2, q3] ?done"
    and qn: "responded q1 = truthy ([] :: anomaly dict)"
      "responded q2 = truthy ([] :: anomaly dict)" "\<not> responded q3"
    by (rule three_cycles [OF bq dq])
  obtain l1 l2 l3 where
    "history [l1, l2] (Some \<lparr>simulation_running = True, cycle = 2, total_cycles = 3\<rparr>)"
    and l: "history [l1, l2, l3] ?done"
    and ln: "responded l1 = truthy
        [(''cpu_usage'', \<lparr>anomaly_value = 45, expected_range = ''10-15''\<rparr>),
         (''network_activity'', \<lparr>anomaly_value = 50, expected_range = ''20-40''\<rparr>),
         (''file_access_rate'', \<lparr>anomaly_value = 7, expected_range = ''0-3''\<rparr>)]"
      "responded l2 = truthy
        [(''cpu_usage'', \<lparr>anomaly_value = 45, expected_range = ''10-15''\<rparr>),
         (''network_activity'', \<lparr>anomaly_value = 50, expected_range = ''20-40''\<rparr>),
         (''file_access_rate'', \<lparr>anomaly_value = 7, expected_range = ''0-3''\<rparr>)]"
      "\<not> responded l3"
    by (rule three_cycles [OF bl dl])
  have nr: "\<not> reset_pressed ?inp" by simp
  have ph: "phase_of (entry_state ?inp ?done) = Complete"
    by (simp add: entry_state_idle phase_of_simps)
  let ?r = "simulation_complete \<lparr>simulation_running = True, cycle = 3, total_cycles = 3\<rparr>
              (entry_page ?inp ?done)"
  have r: "Inr ?r \<in> run_simulation ?inp ?done"
    by (simp add: run_simulation_branches entry_state_idle phase_of_def)
  note t = summary_reports_total_minus_one [OF q r nr refl ph]
  have cq: "length (filter responded [q1, q2, q3]) = 0"
    using qn by (simp add: truthy_def)
  have cl: "length (filter responded [l1, l2, l3]) = 2"
    using ln by (simp add: truthy_def)
  show ?thesis
    using q cq l cl r nr ph t [THEN conjunct2, THEN conjunct2]
    by (intro exI [of _ "[q1, q2, q3]"] exI [of _ "[l1, l2, l3]"] conjI)
qed

end
